theory Spec2Isabelle
  imports Main "HOL-Library.Sublist"
begin

section \<open>Python library functions the program relies on\<close>

text \<open>
  The program is Python 2: \<open>str\<close> is a byte string, modelled as \<^typ>\<open>string\<close>
  (a list of 8-bit characters), both for text and for binary payloads.
  Exceptions are values of the type \<open>error\<close>; a function that can raise returns
  \<open>error + 'a\<close>.
\<close>

datatype error =
    TypeError | ValueError | KeyError | AttributeError | UnicodeDecodeError
  | StructError | SocketError

subsection \<open>String methods\<close>

definition isspace :: "char \<Rightarrow> bool" where
  \<comment> \<open>the whitespace of \<open>str.strip()\<close>: tab, newline, vertical tab, form feed, return, space\<close>
  "isspace c = (c \<in> set [CHR 0x09, CHR 0x0A, CHR 0x0B, CHR 0x0C, CHR 0x0D, CHR '' ''])"

definition strip :: "string \<Rightarrow> string" where
  "strip s = rev (dropWhile isspace (rev (dropWhile isspace s)))"

fun str_contains :: "string \<Rightarrow> string \<Rightarrow> bool" where
  \<comment> \<open>\<open>sub in s\<close>\<close>
  "str_contains sub [] = (sub = [])"
| "str_contains sub (c # cs) = (prefix sub (c # cs) \<or> str_contains sub cs)"

fun str_partition :: "string \<Rightarrow> string \<Rightarrow> string \<times> string \<times> string" where
  \<comment> \<open>\<open>s.partition(sep)\<close> for a non-empty \<open>sep\<close>: split at the first occurrence;
      \<open>(s, '''', '''')\<close> when there is none\<close>
  "str_partition sep [] = ([], [], [])"
| "str_partition sep (c # cs) =
     (if prefix sep (c # cs) then ([], sep, drop (length sep) (c # cs))
      else (case str_partition sep cs of (h, sp, t) \<Rightarrow> (c # h, sp, t)))"

fun str_split :: "char \<Rightarrow> string \<Rightarrow> string list" where
  \<comment> \<open>\<open>s.split(c)\<close> for a one-character separator\<close>
  "str_split sep [] = [[]]"
| "str_split sep (c # cs) =
     (if c = sep then [] # str_split sep cs
      else (case str_split sep cs of w # ws \<Rightarrow> (c # w) # ws | [] \<Rightarrow> [[c]]))"

fun readline :: "string \<Rightarrow> string \<times> string" where
  \<comment> \<open>\<open>f.readline()\<close> on the bytes still to come: the line with its newline, and the rest;
      the empty string at end of file\<close>
  "readline [] = ([], [])"
| "readline (c # cs) =
     (if c = CHR 0x0A then ([c], cs)
      else (case readline cs of (l, rest) \<Rightarrow> (c # l, rest)))"

subsection \<open>Integers and their decimal text\<close>

definition digit_char :: "nat \<Rightarrow> char" where
  "digit_char d = char_of (48 + d)"

fun str_nat :: "nat \<Rightarrow> string" where
  "str_nat n = (if n < 10 then [digit_char n] else str_nat (n div 10) @ [digit_char (n mod 10)])"

declare str_nat.simps [simp del]

definition str_int :: "int \<Rightarrow> string" where
  \<comment> \<open>\<open>str(i)\<close>, also what \<open>''{}''.format(i)\<close> inserts\<close>
  "str_int i = (if i < 0 then CHR ''-'' # str_nat (nat (- i)) else str_nat (nat i))"

definition isdigit :: "char \<Rightarrow> bool" where
  "isdigit c = (48 \<le> (of_char c :: nat) \<and> (of_char c :: nat) \<le> 57)"

definition digits_value :: "string \<Rightarrow> nat" where
  "digits_value ds = foldl (\<lambda>acc c. 10 * acc + ((of_char c :: nat) - 48)) 0 ds"

definition parse_digits :: "string \<Rightarrow> error + nat" where
  "parse_digits ds =
     (if ds \<noteq> [] \<and> list_all isdigit ds then Inr (digits_value ds) else Inl ValueError)"

definition int_of_str :: "string \<Rightarrow> error + int" where
  \<comment> \<open>\<open>int(s)\<close> in base ten: surrounding whitespace, an optional sign, then digits only\<close>
  "int_of_str s =
     (case strip s of
        [] \<Rightarrow> Inl ValueError
      | c # cs \<Rightarrow>
          if c = CHR ''-'' then map_sum id (\<lambda>n. - int n) (parse_digits cs)
          else if c = CHR ''+'' then map_sum id int (parse_digits cs)
          else map_sum id int (parse_digits (c # cs)))"

definition isspace_unicode :: "char \<Rightarrow> bool" where
  \<comment> \<open>the ASCII characters that are whitespace for a \<open>unicode\<close> string: the four
      separators \<open>0x1C\<close> to \<open>0x1F\<close> as well\<close>
  "isspace_unicode c = (isspace c \<or> c \<in> set [CHR 0x1C, CHR 0x1D, CHR 0x1E, CHR 0x1F])"

definition int_of_unicode :: "string \<Rightarrow> error + int" where
  \<comment> \<open>\<open>int(u)\<close> for a \<open>unicode\<close> string of ASCII characters: each whitespace character
      is turned into a blank, then the text is read as by \<open>int(s)\<close>\<close>
  "int_of_unicode u = int_of_str (map (\<lambda>c. if isspace_unicode c then CHR '' '' else c) u)"

definition decode_ascii :: "string \<Rightarrow> error + string" where
  \<comment> \<open>\<open>bytearray(data).decode()\<close> with the default ASCII codec\<close>
  "decode_ascii data =
     (if list_all (\<lambda>c. (of_char c :: nat) < 128) data then Inr data else Inl UnicodeDecodeError)"

subsection \<open>Base64\<close>

text \<open>
  \<open>base64.b64encode\<close> and \<open>base64.b64decode\<close> belong to the Python standard library.
  The encoder follows RFC 4648 with padding. The decoder is the lenient one of Python 2's
  \<open>binascii.a2b_base64\<close>: characters outside the alphabet are skipped, a pad character
  ends the input once at least two characters of a quad were read, and bits that are left
  over at the end raise ``Incorrect padding'' (a \<open>TypeError\<close> from \<open>b64decode\<close>).
\<close>

definition b64_alphabet :: string where
  "b64_alphabet = ''ABCDEFGHIJKLMNOPQRSTUVWXYZabcdefghijklmnopqrstuvwxyz0123456789+/''"

definition table_b2a :: "nat \<Rightarrow> char" where
  "table_b2a n = b64_alphabet ! n"

fun index_of :: "char \<Rightarrow> string \<Rightarrow> nat option" where
  "index_of c [] = None"
| "index_of c (x # xs) = (if x = c then Some 0 else map_option Suc (index_of c xs))"

definition table_a2b :: "char \<Rightarrow> nat option" where
  "table_a2b c = index_of c b64_alphabet"

fun b64encode :: "string \<Rightarrow> string" where
  "b64encode [] = []"
| "b64encode [a] =
     (let x = (of_char a :: nat) in
      [table_b2a (x div 4), table_b2a ((x mod 4) * 16), CHR ''='', CHR ''=''])"
| "b64encode [a, b] =
     (let x = (of_char a :: nat); y = (of_char b :: nat) in
      [table_b2a (x div 4), table_b2a ((x mod 4) * 16 + y div 16),
       table_b2a ((y mod 16) * 4), CHR ''=''])"
| "b64encode (a # b # c # rest) =
     (let x = (of_char a :: nat); y = (of_char b :: nat); z = (of_char c :: nat) in
      [table_b2a (x div 4), table_b2a ((x mod 4) * 16 + y div 16),
       table_b2a ((y mod 16) * 4 + z div 64), table_b2a (z mod 64)] @ b64encode rest)"

definition b64_valid :: "char \<Rightarrow> bool" where
  \<comment> \<open>a character with an entry in the decoding table; the pad character has one\<close>
  "b64_valid c = ((of_char c :: nat) \<le> 127 \<and> (c = CHR ''='' \<or> table_a2b c \<noteq> None))"

fun find_valid :: "string \<Rightarrow> nat \<Rightarrow> char option" where
  \<comment> \<open>the \<open>(num+1)\<close>-th valid character of the input, if any\<close>
  "find_valid [] num = None"
| "find_valid (c # cs) num =
     (if b64_valid c then (if num = 0 then Some c else find_valid cs (num - 1))
      else find_valid cs num)"

fun a2b_base64 :: "nat \<Rightarrow> nat \<Rightarrow> nat \<Rightarrow> string \<Rightarrow> error + string" where
  \<comment> \<open>the decoding loop in the state \<open>leftchar\<close>, \<open>leftbits\<close>, \<open>quad_pos\<close>\<close>
  "a2b_base64 leftchar leftbits quad_pos [] =
     (if leftbits \<noteq> 0 then Inl TypeError else Inr [])"
| "a2b_base64 leftchar leftbits quad_pos (c # cs) =
     (if (of_char c :: nat) > 127 \<or> c = CHR 0x0D \<or> c = CHR 0x0A \<or> c = CHR '' ''
      then a2b_base64 leftchar leftbits quad_pos cs
      else if c = CHR ''=''
      then (if quad_pos < 2 \<or> (quad_pos = 2 \<and> find_valid (c # cs) 1 \<noteq> Some (CHR ''=''))
            then a2b_base64 leftchar leftbits quad_pos cs
            else Inr [])
      else (case table_a2b c of
              None \<Rightarrow> a2b_base64 leftchar leftbits quad_pos cs
            | Some v \<Rightarrow>
                (let quad_pos' = (quad_pos + 1) mod 4;
                     leftchar' = leftchar * 64 + v;
                     leftbits' = leftbits + 6
                 in if leftbits' \<ge> 8
                    then map_sum id
                           (\<lambda>out. char_of ((leftchar' div 2 ^ (leftbits' - 8)) mod 256) # out)
                           (a2b_base64 (leftchar' mod 2 ^ (leftbits' - 8)) (leftbits' - 8)
                              quad_pos' cs)
                    else a2b_base64 leftchar' leftbits' quad_pos' cs)))"

definition b64decode :: "string \<Rightarrow> error + string" where
  "b64decode s = a2b_base64 0 0 0 s"


section \<open>The local peer: \<open>server.py\<close>\<close>

subsection \<open>Protocol constants\<close>

definition NO_AUTHENTICATION_REQUIRED :: int where "NO_AUTHENTICATION_REQUIRED = 0"
definition NO_ACCEPTABLE_METHODS :: nat where "NO_ACCEPTABLE_METHODS = 255"

definition IPV4 :: int where "IPV4 = 1"
definition DOMAIN_NAME :: int where "DOMAIN_NAME = 3"
definition IPV6 :: int where "IPV6 = 4"

definition CONNECT :: int where "CONNECT = 1"

definition SUCCEEDED :: nat where "SUCCEEDED = 0"
definition NETWORK_UNREACHABLE :: nat where "NETWORK_UNREACHABLE = 3"
definition TTL_EXPIRED :: nat where "TTL_EXPIRED = 6"
definition COMMAND_NOT_SUPPORTED :: nat where "COMMAND_NOT_SUPPORTED = 7"
definition ADDRESS_TYPE_NOT_SUPPORTED :: nat where "ADDRESS_TYPE_NOT_SUPPORTED = 8"

definition SOCKS_VERSION :: nat where "SOCKS_VERSION = 5"

definition BASE64_MARKER :: string where
  \<comment> \<open>the literal \<open>$BASE64$\<close> of the frame formats\<close>
  "BASE64_MARKER = ''$BASE64$''"

subsection \<open>\<open>Socks5RequestHandler\<close>: the client connection\<close>

text \<open>
  \<open>rfile\<close> holds the bytes the client sends on the connection (up to its end of file) that
  the handler has not read yet; \<open>wfile\<close> collects every byte handed to the client, through
  \<open>wfile.write\<close> or through \<open>connection.sendall\<close> (the file is unbuffered, so both are
  the same stream).
\<close>

record socks5_request_handler =
  rfile :: string
  wfile :: string

definition recv :: "socks5_request_handler \<Rightarrow> int \<Rightarrow> string \<times> socks5_request_handler" where
  \<comment> \<open>\<open>rfile.read(n)\<close>: \<open>n\<close> bytes, fewer at end of file; everything for a negative size\<close>
  "recv h n =
     (if n < 0 then (rfile h, h\<lparr>rfile := []\<rparr>)
      else (take (nat n) (rfile h), h\<lparr>rfile := drop (nat n) (rfile h)\<rparr>))"

definition send :: "socks5_request_handler \<Rightarrow> string \<Rightarrow> socks5_request_handler" where
  "send h data = h\<lparr>wfile := wfile h @ data\<rparr>"

definition connection_sendall :: "socks5_request_handler \<Rightarrow> string \<Rightarrow> socks5_request_handler" where
  \<comment> \<open>\<open>handler.connection.sendall(data)\<close>\<close>
  "connection_sendall h data = h\<lparr>wfile := wfile h @ data\<rparr>"

definition response :: "nat \<Rightarrow> string" where
  \<comment> \<open>the ten bytes of a reply: version, reply code, zero, address type 1, six zeros\<close>
  "response reply_type =
     (replicate 10 (char_of (0::nat)))
       [0 := char_of SOCKS_VERSION, 1 := char_of reply_type, 3 := char_of (1::nat)]"

definition send_response :: "socks5_request_handler \<Rightarrow> nat \<Rightarrow> socks5_request_handler" where
  "send_response h reply_type = send h (response reply_type)"

definition signed_byte :: "char \<Rightarrow> int" where
  "signed_byte c = (let n = (of_char c :: nat) in if n < 128 then int n else int n - 256)"

definition unpack_b :: "nat \<Rightarrow> string \<Rightarrow> error + int list" where
  \<comment> \<open>\<open>struct.unpack('b' * n, data)\<close>\<close>
  "unpack_b n data = (if length data = n then Inr (map signed_byte data) else Inl StructError)"

definition unpack_H :: "string \<Rightarrow> error + nat" where
  \<comment> \<open>\<open>struct.unpack(''!H'', data)[0]\<close>: an unsigned 16-bit integer in network byte order\<close>
  "unpack_H data =
     (case data of [hi, lo] \<Rightarrow> Inr (of_char hi * 256 + of_char lo) | _ \<Rightarrow> Inl StructError)"

definition inet_ntoa :: "string \<Rightarrow> error + string" where
  "inet_ntoa data =
     (case data of
        [a, b, c, d] \<Rightarrow>
          Inr (str_nat (of_char a) @ ''.'' @ str_nat (of_char b) @ ''.'' @
               str_nat (of_char c) @ ''.'' @ str_nat (of_char d))
      | _ \<Rightarrow> Inl SocketError)"

subsection \<open>Sessions\<close>

text \<open>
  \<open>session_id\<close> and \<open>is_alive\<close> are the attributes \<open>_session_id\<close> and \<open>_is_alive\<close>, which
  \<open>get_id()\<close> and \<open>is_alive()\<close> read. A tunneled session (\<open>ClipsSession\<close>) extends the
  direct one with the attributes that \<open>connect\<close> sets: \<open>handler = None\<close> stands for a
  session on which \<open>connect\<close> has not run yet, so that both attributes are still missing.
  A function that mutates a session returns the updated record.
\<close>

record session =
  session_id :: string
  is_alive :: bool

record clips_session = session +
  handler :: "socks5_request_handler option"
  proxy_socket :: "int option"

type_synonym address = "string option \<times> nat option"

definition format_field :: "string option \<Rightarrow> string" where
  \<comment> \<open>what \<open>''{}''.format(x)\<close> inserts for a string or \<open>None\<close>\<close>
  "format_field x = (case x of None \<Rightarrow> ''None'' | Some s \<Rightarrow> s)"

definition format_port :: "nat option \<Rightarrow> string" where
  "format_port x = (case x of None \<Rightarrow> ''None'' | Some n \<Rightarrow> str_nat n)"

datatype recv_result = Data string | IOError

subsubsection \<open>The direct variant\<close>

definition Session_init :: "string \<Rightarrow> session" where
  "Session_init sid = \<lparr>session_id = sid, is_alive = True\<rparr>"

definition Session_close :: "session \<Rightarrow> string list \<Rightarrow> session \<times> string list" where
  \<comment> \<open>prints a line on the standard output, then clears the flag\<close>
  "Session_close s out =
     (s\<lparr>is_alive := False\<rparr>, out @ [''[ID:'' @ session_id s @ ''] SESSION CLOSE'' @ [CHR 0x0A]])"

datatype fd = Connection | ProxySocket

text \<open>
  The state of the relay loop: the session, the handler, the bytes sent to the destination
  socket and the standard output. One readable descriptor of a \<open>select\<close> result comes with
  what \<open>recv\<close> on it does and with whether the \<open>sendall\<close> that follows raises \<open>IOError\<close>.
\<close>

type_synonym relay_state = "session \<times> socks5_request_handler \<times> string \<times> string list"

fun relay_rlist :: "relay_state \<Rightarrow> (fd \<times> recv_result \<times> bool) list \<Rightarrow> relay_state" where
  "relay_rlist st [] = st"
| "relay_rlist (s, h, dest, out) ((f, r, sendall_raises) # rlist) =
     (case r of
        IOError \<Rightarrow>
          (case Session_close s out of (s', out') \<Rightarrow> relay_rlist (s', h, dest, out') rlist)
      | Data data \<Rightarrow>
          if data = [] then (case Session_close s out of (s', out') \<Rightarrow> (s', h, dest, out'))
          else if sendall_raises
          then (case Session_close s out of (s', out') \<Rightarrow> relay_rlist (s', h, dest, out') rlist)
          else (case f of
                  Connection \<Rightarrow> relay_rlist (s, h, dest @ data, out) rlist
                | ProxySocket \<Rightarrow> relay_rlist (s, connection_sendall h data, dest, out) rlist))"

fun relay_loop :: "relay_state \<Rightarrow> (fd \<times> recv_result \<times> bool) list list \<Rightarrow> relay_state" where
  \<comment> \<open>one list element per \<open>select\<close> call; when the list ends with the session alive, the
      loop is still polling\<close>
  "relay_loop st [] = st"
| "relay_loop (s, h, dest, out) (rlist # selects) =
     (if is_alive s then relay_loop (relay_rlist (s, h, dest, out) rlist) selects
      else (s, h, dest, out))"

definition connect_line :: "session \<Rightarrow> string \<times> nat \<Rightarrow> string" where
  \<comment> \<open>the line that \<open>connect\<close> prints first\<close>
  "connect_line s address =
     ''[ID:'' @ session_id s @ ''] TCP CONNECT '' @ fst address @ '':'' @
     str_nat (snd address) @ [CHR 0x0A]"

definition Session_connect ::
  "session \<Rightarrow> socks5_request_handler \<Rightarrow> string \<times> nat \<Rightarrow> int \<Rightarrow>
     (fd \<times> recv_result \<times> bool) list list \<Rightarrow> string list \<Rightarrow> relay_state" where
  \<comment> \<open>\<open>result\<close> is what \<open>connect_ex(address)\<close> returns\<close>
  "Session_connect s h address result selects out0 =
     (let out = out0 @ [connect_line s address]
      in if result = 0 then relay_loop (s, send_response h SUCCEEDED, [], out) selects
         else if result = 60 then (s, send_response h TTL_EXPIRED, [], out)
         else if result = 61 then (s, send_response h NETWORK_UNREACHABLE, [], out)
         else (s, send_response h NETWORK_UNREACHABLE, [], out))"

subsubsection \<open>The tunneled variant\<close>

definition ClipsSession_init :: "string \<Rightarrow> clips_session" where
  "ClipsSession_init sid =
     \<lparr>session_id = sid, is_alive = True, handler = None, proxy_socket = None\<rparr>"

definition ClipsSession_close :: "clips_session \<Rightarrow> clips_session" where
  "ClipsSession_close s = s\<lparr>is_alive := False\<rparr>"

definition connect_frame :: "string \<Rightarrow> address \<Rightarrow> string" where
  \<comment> \<open>\<open>''$BASE64${}$${}${}\n''.format(id, address[1], address[0])\<close>\<close>
  "connect_frame sid address =
     BASE64_MARKER @ sid @ ''$$'' @ format_port (snd address) @ ''$'' @
     format_field (fst address) @ [CHR 0x0A]"

definition data_frame :: "string \<Rightarrow> string \<Rightarrow> string" where
  \<comment> \<open>\<open>''$BASE64${}${}\n''.format(id, base64.b64encode(data))\<close>\<close>
  "data_frame sid data = BASE64_MARKER @ sid @ ''$'' @ b64encode data @ [CHR 0x0A]"

fun connect_loop :: "clips_session \<Rightarrow> string list \<Rightarrow> recv_result list \<Rightarrow> clips_session \<times> string list" where
  \<comment> \<open>one list element per read of the client socket; the second component is the shared
      outbound queue; when the list ends with the session alive, the loop is still polling\<close>
  "connect_loop s q [] = (s, q)"
| "connect_loop s q (r # reads) =
     (if is_alive s
      then (case r of
              Data data \<Rightarrow>
                connect_loop (if data = [] then ClipsSession_close s else s)
                  (q @ [data_frame (session_id s) data]) reads
            | IOError \<Rightarrow> connect_loop (ClipsSession_close s) q reads)
      else (s, q))"

definition ClipsSession_connect ::
  "clips_session \<Rightarrow> socks5_request_handler \<Rightarrow> address \<Rightarrow> string list \<Rightarrow> recv_result list \<Rightarrow>
     clips_session \<times> string list" where
  "ClipsSession_connect s h address q reads =
     connect_loop (s\<lparr>handler := Some h, proxy_socket := None\<rparr>)
       (q @ [connect_frame (session_id s) address]) reads"

definition get_response :: "clips_session \<Rightarrow> string \<Rightarrow> error + clips_session" where
  "get_response s data =
     (if data = [] then Inr (ClipsSession_close s)
      else (case handler s of
              None \<Rightarrow> Inl AttributeError
            | Some h \<Rightarrow>
                (case proxy_socket s of
                   Some r \<Rightarrow> Inr (s\<lparr>handler := Some (connection_sendall h data)\<rparr>)
                 | None \<Rightarrow>
                     (case decode_ascii data of
                        Inl e \<Rightarrow> Inl e
                      | Inr text \<Rightarrow>
                          (case int_of_unicode text of
                             Inl e \<Rightarrow> Inl e
                           | Inr r \<Rightarrow>
                               if r = 0
                               then Inr (s\<lparr>handler := Some (send_response h SUCCEEDED),
                                          proxy_socket := Some r\<rparr>)
                               else Inr (ClipsSession_close
                                          (s\<lparr>handler := Some (send_response h NETWORK_UNREACHABLE),
                                             proxy_socket := Some r\<rparr>)))))))"

subsection \<open>The session registry\<close>

datatype log_entry = Traceback error | Text string

text \<open>
  The state of a \<open>ClipsSessionManager\<close>: the registry \<open>_sessions\<close>, the shared outbound
  queue \<open>_server._mq\<close> and what was written to the standard error stream. The reader of
  the ``in'' stream and the handlers of the client connections are threads on this shared
  state: the model takes one line of the reader as one step.
\<close>

record session_manager =
  sessions :: "string \<rightharpoonup> clips_session"
  mq :: "string list"
  stderr :: "log_entry list"

definition ID_CHARSET :: string where
  \<comment> \<open>\<open>string.letters + string.digits\<close>\<close>
  "ID_CHARSET = ''abcdefghijklmnopqrstuvwxyzABCDEFGHIJKLMNOPQRSTUVWXYZ'' @ ''0123456789''"

definition ID_SIZE :: nat where "ID_SIZE = 8"

text \<open>
  The random number generator is a sequence \<open>rnd\<close> of numbers and a position in it;
  \<open>random.choice(seq)\<close> consumes one number and returns an element of \<open>seq\<close>.
\<close>

definition random_choice :: "(nat \<Rightarrow> nat) \<Rightarrow> nat \<Rightarrow> string \<Rightarrow> char" where
  "random_choice rnd i seq = seq ! (rnd i mod length seq)"

definition random_id :: "(nat \<Rightarrow> nat) \<Rightarrow> nat \<Rightarrow> string" where
  \<comment> \<open>the identifier drawn: \<open>ID_SIZE\<close> times \<open>random.choice(ID_CHARSET)\<close>, joined\<close>
  "random_id rnd i = map (\<lambda>j. random_choice rnd (i + j) ID_CHARSET) [0..<ID_SIZE]"

partial_function (option) create_session_id ::
  "(nat \<Rightarrow> nat) \<Rightarrow> nat \<Rightarrow> (string \<rightharpoonup> clips_session) \<Rightarrow> (string \<times> nat) option" where
  \<comment> \<open>the loop draws again while the identifier is a key of the registry; \<open>None\<close> when it
      never ends\<close>
  "create_session_id rnd i registry =
     (if registry (random_id rnd i) \<noteq> None
      then create_session_id rnd (i + ID_SIZE) registry
      else Some (random_id rnd i, i + ID_SIZE))"

definition create_session ::
  "session_manager \<Rightarrow> (nat \<Rightarrow> nat) \<Rightarrow> nat \<Rightarrow> (clips_session \<times> session_manager \<times> nat) option" where
  "create_session m rnd i =
     (case create_session_id rnd i (sessions m) of
        None \<Rightarrow> None
      | Some (sid, i') \<Rightarrow>
          Some (ClipsSession_init sid,
                m\<lparr>sessions := (sessions m)(sid \<mapsto> ClipsSession_init sid)\<rparr>, i'))"

definition get_session :: "session_manager \<Rightarrow> string \<Rightarrow> error + clips_session" where
  "get_session m sid = (case sessions m sid of None \<Rightarrow> Inl KeyError | Some s \<Rightarrow> Inr s)"

subsection \<open>The reader of the ``in'' stream\<close>

definition stdin_line :: "session_manager \<Rightarrow> string \<Rightarrow> session_manager" where
  \<comment> \<open>the body of the loop of \<open>_stdin_worker\<close> for one line read\<close>
  "stdin_line m line0 =
     (let line = strip line0 in
      if line = [] then m
      else (case str_partition BASE64_MARKER line of
              (head, sep, tail) \<Rightarrow>
                if head \<noteq> [] then m
                else (case str_partition ''$'' tail of
                        (sid, sep', data) \<Rightarrow>
                          (case (case b64decode data of
                                   Inl e \<Rightarrow> Inl e
                                 | Inr data' \<Rightarrow>
                                     (case get_session m sid of
                                        Inl e \<Rightarrow> Inl e
                                      | Inr s \<Rightarrow> get_response s data')) of
                             Inl e \<Rightarrow> m\<lparr>stderr := stderr m @ [Traceback e]\<rparr>
                           | Inr s' \<Rightarrow> m\<lparr>sessions := (sessions m)(sid \<mapsto> s')\<rparr>))))"

fun stdin_worker :: "session_manager \<Rightarrow> string list \<Rightarrow> session_manager" where
  \<comment> \<open>the list holds what the successive \<open>readline()\<close> calls return; the empty string is
      the end of the stream and ends the worker\<close>
  "stdin_worker m [] = m"
| "stdin_worker m (line # lines) =
     (if line = [] then m else stdin_worker (stdin_line m line) lines)"

subsection \<open>The SOCKS5 front-end\<close>

text \<open>
  \<open>Socks5RequestHandler.handle\<close> in the three parts that the source marks with comments:
  the methods handling is written out in \<open>handle\<close>; \<open>address_handling\<close> and
  \<open>command_handling\<close> are the two parts that follow it. An exception that leaves \<open>handle\<close>
  is the result \<open>Inl\<close>; \<open>None\<close> is a call that does not return because no session
  identifier is found.
\<close>

definition address_handling ::
  "socks5_request_handler \<Rightarrow> int \<Rightarrow> error + (address \<times> socks5_request_handler)" where
  "address_handling h address_type =
     (if address_type = IPV4
      then (case recv h 4 of
              (d, h1) \<Rightarrow>
                (case inet_ntoa d of
                   Inl e \<Rightarrow> Inl e
                 | Inr host \<Rightarrow>
                     (case recv h1 2 of
                        (d', h2) \<Rightarrow>
                          (case unpack_H d' of
                             Inl e \<Rightarrow> Inl e
                           | Inr port \<Rightarrow> Inr ((Some host, Some port), h2)))))
      else if address_type = DOMAIN_NAME
      then (case recv h 1 of
              (d, h1) \<Rightarrow>
                (case unpack_b 1 d of
                   Inl e \<Rightarrow> Inl e
                 | Inr len \<Rightarrow>
                     (case recv h1 (len ! 0) of
                        (host, h2) \<Rightarrow>
                          (case recv h2 2 of
                             (d', h3) \<Rightarrow>
                               (case unpack_H d' of
                                  Inl e \<Rightarrow> Inl e
                                | Inr port \<Rightarrow> Inr ((Some host, Some port), h3))))))
      else Inr ((None, None), send_response h ADDRESS_TYPE_NOT_SUPPORTED))"

definition command_handling ::
  "socks5_request_handler \<Rightarrow> session_manager \<Rightarrow> (nat \<Rightarrow> nat) \<Rightarrow> nat \<Rightarrow> recv_result list \<Rightarrow>
     int \<Rightarrow> address \<Rightarrow> (socks5_request_handler \<times> session_manager \<times> nat) option" where
  \<comment> \<open>\<open>reads\<close> is what the client socket delivers while the session relays. The session is
      stored back under its identifier; \<open>connect\<close> has returned, and \<open>close\<close> is called,
      exactly when the session is not alive any more. The handler returned is the one the
      session holds.\<close>
  "command_handling h m rnd i reads command address =
     (if command = CONNECT
      then (case create_session m rnd i of
              None \<Rightarrow> None
            | Some (s, m1, i') \<Rightarrow>
                (case ClipsSession_connect s h address (mq m1) reads of
                   (s1, q) \<Rightarrow>
                     (let s2 = (if is_alive s1 then s1 else ClipsSession_close s1)
                      in Some (case handler s2 of None \<Rightarrow> h | Some h' \<Rightarrow> h',
                               m1\<lparr>sessions := (sessions m1)(session_id s2 \<mapsto> s2), mq := q\<rparr>,
                               i'))))
      else Some (send_response h COMMAND_NOT_SUPPORTED, m, i))"

definition handle ::
  "socks5_request_handler \<Rightarrow> session_manager \<Rightarrow> (nat \<Rightarrow> nat) \<Rightarrow> nat \<Rightarrow> recv_result list \<Rightarrow>
     (error + socks5_request_handler \<times> session_manager \<times> nat) option" where
  "handle h m rnd i reads =
     (case recv h 2 of
        (d, h1) \<Rightarrow>
          (case unpack_b 2 d of
             Inl e \<Rightarrow> Some (Inl e)
           | Inr vm \<Rightarrow>
               (let method_num = vm ! 1 in
                case recv h1 method_num of
                  (d', h2) \<Rightarrow>
                    (case unpack_b (nat method_num) d' of
                       Inl e \<Rightarrow> Some (Inl e)
                     | Inr methods \<Rightarrow>
                         if NO_AUTHENTICATION_REQUIRED \<in> set methods
                         then (let h3 = send h2 [char_of SOCKS_VERSION,
                                                 char_of (nat NO_AUTHENTICATION_REQUIRED)]
                               in case recv h3 4 of
                                    (d'', h4) \<Rightarrow>
                                      (case unpack_b 4 d'' of
                                         Inl e \<Rightarrow> Some (Inl e)
                                       | Inr hdr \<Rightarrow>
                                           (case address_handling h4 (hdr ! 3) of
                                              Inl e \<Rightarrow> Some (Inl e)
                                            | Inr (address, h5) \<Rightarrow>
                                                map_option Inr
                                                  (command_handling h5 m rnd i reads
                                                     (hdr ! 1) address))))
                         else Some (Inr (send h2 [char_of SOCKS_VERSION,
                                                  char_of NO_ACCEPTABLE_METHODS], m, i))))))"

section \<open>The remote peer: \<open>proxy.py\<close>\<close>

text \<open>
  The state of a \<open>SOCKSHandler\<close>: the mapping \<open>_sessions\<close> from a session identifier to
  the destination address, the port and the inbound queue; the worker threads started, by
  identifier; the frames sent on \<open>wconn\<close>; and the standard error stream. The reading loop
  and the workers are threads on this shared state: the model takes one line of the reading
  loop, and one round of a worker's loop, as one step.
\<close>

record socks_handler =
  proxy_sessions :: "string \<rightharpoonup> (string \<times> int \<times> string list)"
  workers :: "string list"
  wconn :: "string list"
  proxy_stderr :: "log_entry list"

definition log_text :: "socks_handler \<Rightarrow> string \<Rightarrow> socks_handler" where
  "log_text st msg = st\<lparr>proxy_stderr := proxy_stderr st @ [Text msg]\<rparr>"

definition spawn_worker :: "socks_handler \<Rightarrow> string \<Rightarrow> string \<Rightarrow> int \<Rightarrow> socks_handler" where
  "spawn_worker st sid address port =
     log_text
       (st\<lparr>proxy_sessions := (proxy_sessions st)(sid \<mapsto> (address, port, [])),
           workers := workers st @ [sid]\<rparr>)
       (''[PROXY] CONNECT '' @ address @ '':'' @ str_int port @ '' ('' @ sid @ '')'' @
        [CHR 0x0D, CHR 0x0A])"

definition read_line :: "socks_handler \<Rightarrow> string \<Rightarrow> string option \<times> socks_handler" where
  \<comment> \<open>the body of the loop of \<open>read\<close> for one line read: the line to return, if any\<close>
  "read_line st0 line =
     (let st = log_text st0 ('':'' @ strip line @ [CHR 0x0A]) in
      case str_partition BASE64_MARKER line of
        (head, sep, tail0) \<Rightarrow>
          if head \<noteq> [] then (Some line, st)
          else (case str_partition ''$'' tail0 of
                  (sid, sep', tail) \<Rightarrow>
                    (case (if str_contains ''$'' (take 1 tail)
                           then (case str_split (CHR ''$'') tail of
                                   [u, port, address] \<Rightarrow>
                                     (case int_of_str port of
                                        Inl e \<Rightarrow> Inl e
                                      | Inr port' \<Rightarrow>
                                          Inr (spawn_worker st sid (strip address) port'))
                                 | _ \<Rightarrow> Inl ValueError)
                           else (case b64decode tail of
                                   Inl e \<Rightarrow> Inl e
                                 | Inr data \<Rightarrow>
                                     (case proxy_sessions st sid of
                                        None \<Rightarrow> Inl KeyError
                                      | Some (a, p, q) \<Rightarrow>
                                          Inr (st\<lparr>proxy_sessions :=
                                                 (proxy_sessions st)(sid \<mapsto> (a, p, q @ [data]))\<rparr>)))) of
                       Inl e \<Rightarrow> (None, st\<lparr>proxy_stderr := proxy_stderr st @ [Traceback e]\<rparr>)
                     | Inr st' \<Rightarrow> (None, st'))))"

fun SOCKSHandler_read ::
  "socks_handler \<Rightarrow> string list \<Rightarrow> string option \<times> socks_handler \<times> string list" where
  \<comment> \<open>\<open>read\<close>: the list holds what the successive \<open>readline()\<close> calls return; the result is
      the line returned (\<open>None\<close> while the loop is still reading) and the lines not read\<close>
  "SOCKSHandler_read st [] = (None, st, [])"
| "SOCKSHandler_read st (line # lines) =
     (case read_line st line of
        (Some l, st') \<Rightarrow> (Some l, st', lines)
      | (None, st') \<Rightarrow> SOCKSHandler_read st' lines)"

definition SOCKSHandler_send :: "socks_handler \<Rightarrow> string \<Rightarrow> string \<Rightarrow> socks_handler" where
  \<comment> \<open>\<open>_send\<close>\<close>
  "SOCKSHandler_send st sid data =
     (let frame = data_frame sid data in
      (log_text st (''!'' @ frame))\<lparr>wconn := wconn st @ [frame]\<rparr>)"

fun drain_queue ::
  "string \<Rightarrow> string list \<Rightarrow> string \<Rightarrow> log_entry list \<Rightarrow> bool \<times> string list \<times> string \<times> log_entry list" where
  \<comment> \<open>the inner loop of \<open>_worker\<close> on the inbound queue: whether the worker stays alive, the
      queue left, the bytes sent to the destination socket, the log\<close>
  "drain_queue sid [] sock lg = (True, [], sock, lg)"
| "drain_queue sid (data # q) sock lg =
     (if data \<noteq> []
      then drain_queue sid q (sock @ data)
             (lg @ [Text (''[PROXY] REQUEST data to '' @ sid @ '' [len='' @
                          str_nat (length data) @ '']'' @ [CHR 0x0A])])
      else (False, q, sock,
            lg @ [Text (''[PROXY] EMPTY REQUEST ('' @ sid @ '')'' @ [CHR 0x0A])]))"

definition worker_iter ::
  "socks_handler \<Rightarrow> string \<Rightarrow> string \<Rightarrow> recv_result option \<Rightarrow>
     error + (socks_handler \<times> bool \<times> string)" where
  \<comment> \<open>one round of the loop of \<open>_worker\<close>: \<open>ev\<close> is \<open>None\<close> when \<open>select\<close> reports nothing to
      read, otherwise what \<open>recv\<close> does; the result has the flag \<open>is_alive\<close> and the bytes
      sent to the destination socket so far\<close>
  "worker_iter st sid sock ev =
     (case (case ev of
              None \<Rightarrow> Inr (st, True)
            | Some IOError \<Rightarrow>
                Inr (log_text st (''[PROXY] IOError '' @ sid @ [CHR 0x0A]), False)
            | Some (Data data) \<Rightarrow>
                (let st1 = SOCKSHandler_send st sid data in
                 if data = []
                 then (let st2 = log_text st1 (''[PROXY] EMPTY RESPONSE ('' @ sid @ '')'' @ [CHR 0x0A])
                       in case proxy_sessions st2 sid of
                            None \<Rightarrow> Inl KeyError
                          | Some entry \<Rightarrow>
                              Inr (st2\<lparr>proxy_sessions := (proxy_sessions st2)(sid := None)\<rparr>, False))
                 else Inr (log_text st1 (''[PROXY] RESPONSE data to '' @ sid @ '' [len='' @
                                         str_nat (length data) @ '']'' @ [CHR 0x0A]), True))) of
        Inl e \<Rightarrow> Inl e
      | Inr (st', alive) \<Rightarrow>
          if alive
          then (case proxy_sessions st' sid of
                  None \<Rightarrow> Inl KeyError
                | Some (a, p, q) \<Rightarrow>
                    (case drain_queue sid q sock (proxy_stderr st') of
                       (alive', q', sock', lg) \<Rightarrow>
                         Inr (st'\<lparr>proxy_sessions := (proxy_sessions st')(sid \<mapsto> (a, p, q')),
                                  proxy_stderr := lg\<rparr>, alive', sock')))
          else Inr (st', False, sock))"

fun worker_loop ::
  "socks_handler \<Rightarrow> string \<Rightarrow> string \<Rightarrow> recv_result option list \<Rightarrow>
     error + (socks_handler \<times> bool \<times> string)" where
  \<comment> \<open>one list element per round; the flag of the result says whether the worker is still
      running (the rounds given are used up) or has left the loop and terminated\<close>
  "worker_loop st sid sock [] = Inr (st, True, sock)"
| "worker_loop st sid sock (ev # evs) =
     (case worker_iter st sid sock ev of
        Inl e \<Rightarrow> Inl e
      | Inr (st', alive, sock') \<Rightarrow>
          if alive then worker_loop st' sid sock' evs
          else Inr (log_text st' (''[PROXY] CLOSE '' @ sid @ [CHR 0x0A]), False, sock'))"

definition SOCKSHandler_worker ::
  "socks_handler \<Rightarrow> string \<Rightarrow> int \<Rightarrow> recv_result option list \<Rightarrow>
     error + (socks_handler \<times> bool \<times> string)" where
  \<comment> \<open>\<open>_worker\<close>: \<open>result\<close> is what \<open>connect_ex\<close> on the destination returns\<close>
  "SOCKSHandler_worker st sid result evs =
     (case proxy_sessions st sid of
        None \<Rightarrow> Inl KeyError
      | Some entry \<Rightarrow>
          (let st1 = SOCKSHandler_send st sid (str_int result) in
           if result \<noteq> 0 then Inr (st1, False, [])
           else worker_loop st1 sid [] evs))"

section \<open>Notions used to state the properties\<close>

definition clean_host :: "string \<Rightarrow> bool" where
  \<comment> \<open>a host name that the CONNECT frame carries unchanged: no separator, no newline, no
      whitespace at either end\<close>
  "clean_host host = (CHR ''$'' \<notin> set host \<and> CHR 0x0A \<notin> set host \<and>
     (host = [] \<or> (\<not> isspace (hd host) \<and> \<not> isspace (last host))))"

definition registry_ok :: "session_manager \<Rightarrow> bool" where
  \<comment> \<open>every session of the registry is stored under its own identifier\<close>
  "registry_ok m = (\<forall>k s. sessions m k = Some s \<longrightarrow> session_id s = k)"

section \<open>Properties of the library functions\<close>

subsection \<open>Base64 round trip\<close>

lemma index_of_nth: "distinct xs \<Longrightarrow> n < length xs \<Longrightarrow> index_of (xs ! n) xs = Some n"
proof (induction xs arbitrary: n)
  case Nil then show ?case by simp
next
  case (Cons x xs)
  then show ?case by (cases n) auto
qed

lemma table_a2b_b2a: "n < 64 \<Longrightarrow> table_a2b (table_b2a n) = Some n"
  unfolding table_a2b_def table_b2a_def
  by (rule index_of_nth) (simp_all add: b64_alphabet_def)

lemma table_b2a_in: "n < 64 \<Longrightarrow> table_b2a n \<in> set b64_alphabet"
  unfolding table_b2a_def by (rule nth_mem) (simp add: b64_alphabet_def)

lemma b64_alphabet_plain:
  "c \<in> set b64_alphabet \<Longrightarrow>
     \<not> (of_char c :: nat) > 127 \<and> c \<noteq> CHR 0x0D \<and> c \<noteq> CHR 0x0A \<and> c \<noteq> CHR '' '' \<and> c \<noteq> CHR ''=''
     \<and> c \<noteq> CHR ''$'' \<and> \<not> isspace c"
  unfolding b64_alphabet_def isspace_def by auto

lemma a2b_step:
  assumes "n < 64"
  shows "a2b_base64 lc lb qp (table_b2a n # cs) =
     (if lb + 6 \<ge> 8
      then map_sum id (\<lambda>out. char_of (((lc * 64 + n) div 2 ^ (lb + 6 - 8)) mod 256) # out)
             (a2b_base64 ((lc * 64 + n) mod 2 ^ (lb + 6 - 8)) (lb + 6 - 8) ((qp + 1) mod 4) cs)
      else a2b_base64 (lc * 64 + n) (lb + 6) ((qp + 1) mod 4) cs)"
  using b64_alphabet_plain[OF table_b2a_in[OF assms]] table_a2b_b2a[OF assms]
  by (simp add: Let_def)

lemma sextet_bounds:
  fixes x y z :: nat
  assumes "x < 256" "y < 256" "z < 256"
  shows "x div 4 < 64" "(x mod 4) * 16 < 64" "(x mod 4) * 16 + y div 16 < 64"
        "(y mod 16) * 4 < 64" "(y mod 16) * 4 + z div 64 < 64" "z mod 64 < 64"
  using assms by linarith+

lemma quarter_sum: "(x::nat) div 4 * 64 + x mod 4 * 16 = 16 * x"
proof -
  have "x div 4 * 64 = x div 4 * 4 * 16" by simp
  then have "x div 4 * 64 + x mod 4 * 16 = (x div 4 * 4 + x mod 4) * 16"
    by (simp only: add_mult_distrib)
  also have "\<dots> = 16 * x" by simp
  finally show ?thesis .
qed

lemma sixteenth_sum: "(y::nat) div 16 * 64 + y mod 16 * 4 = 4 * y"
proof -
  have "y div 16 * 64 = y div 16 * 16 * 4" by simp
  then have "y div 16 * 64 + y mod 16 * 4 = (y div 16 * 16 + y mod 16) * 4"
    by (simp only: add_mult_distrib)
  also have "\<dots> = 4 * y" by simp
  finally show ?thesis .
qed

lemma first_byte:
  fixes x y z :: nat
  assumes "x < 256" "y < 256" 
  shows "((x div 4) * 64 + ((x mod 4) * 16 + y div 16)) div 16 mod 256 = x"
    and "((x div 4) * 64 + ((x mod 4) * 16 + y div 16)) mod 16 = y div 16"
proof -
  have e: "(x div 4) * 64 + ((x mod 4) * 16 + y div 16) = 16 * x + y div 16"
    using quarter_sum[of x] by simp
  have l: "y div 16 < 16" using assms by simp
  show "((x div 4) * 64 + ((x mod 4) * 16 + y div 16)) div 16 mod 256 = x"
    unfolding e using assms l by simp
  show "((x div 4) * 64 + ((x mod 4) * 16 + y div 16)) mod 16 = y div 16"
    unfolding e using l by simp
qed

lemma second_byte:
  fixes x y z :: nat
  assumes "y < 256" "z < 256" 
  shows "((y div 16) * 64 + ((y mod 16) * 4 + z div 64)) div 4 mod 256 = y"
    and "((y div 16) * 64 + ((y mod 16) * 4 + z div 64)) mod 4 = z div 64"
proof -
  have e: "(y div 16) * 64 + ((y mod 16) * 4 + z div 64) = 4 * y + z div 64"
    using sixteenth_sum[of y] by simp
  have l: "z div 64 < 4" using assms by simp
  show "((y div 16) * 64 + ((y mod 16) * 4 + z div 64)) div 4 mod 256 = y"
    unfolding e using assms l by simp
  show "((y div 16) * 64 + ((y mod 16) * 4 + z div 64)) mod 4 = z div 64"
    unfolding e using l by simp
qed

lemma third_byte:
  fixes z :: nat
  assumes "z < 256" 
  shows "((z div 64) * 64 + z mod 64) mod 256 = z"
  using assms by simp

lemma padded_bytes:
  fixes x y :: nat
  assumes "x < 256" "y < 256"
  shows "((x div 4) * 64 + (x mod 4) * 16) div 16 mod 256 = x"
    and "((x div 4) * 64 + (x mod 4) * 16) mod 16 = 0"
    and "((y div 16) * 64 + (y mod 16) * 4) div 4 mod 256 = y"
    and "((y div 16) * 64 + (y mod 16) * 4) mod 4 = 0"
  unfolding quarter_sum sixteenth_sum using assms by simp_all


lemma b64_valid_pad: "b64_valid (CHR ''='')"
  by (simp add: b64_valid_def)

lemma a2b_quad:
  fixes a b c :: char
  defines "x \<equiv> (of_char a :: nat)" and "y \<equiv> (of_char b :: nat)" and "z \<equiv> (of_char c :: nat)"
  shows "a2b_base64 0 0 0 (table_b2a (x div 4) # table_b2a ((x mod 4) * 16 + y div 16) #
           table_b2a ((y mod 16) * 4 + z div 64) # table_b2a (z mod 64) # cs)
         = map_sum id (\<lambda>out. a # b # c # out) (a2b_base64 0 0 0 cs)"
proof -
  have b: "x < 256" "y < 256" "z < 256" by (simp_all add: x_def y_def z_def)
  have c: "char_of x = a" "char_of y = b" "char_of z = c" by (simp_all add: x_def y_def z_def)
  note sb = sextet_bounds[OF b]
  have 1: "a2b_base64 0 0 0 (table_b2a (x div 4) # table_b2a ((x mod 4) * 16 + y div 16) #
           table_b2a ((y mod 16) * 4 + z div 64) # table_b2a (z mod 64) # cs)
      = a2b_base64 (x div 4) 6 1 (table_b2a ((x mod 4) * 16 + y div 16) #
           table_b2a ((y mod 16) * 4 + z div 64) # table_b2a (z mod 64) # cs)"
    by (simp add: a2b_step[OF sb(1)] del: a2b_base64.simps)
  have 2: "a2b_base64 (x div 4) 6 1 (table_b2a ((x mod 4) * 16 + y div 16) # rest)
      = map_sum id (\<lambda>out. a # out) (a2b_base64 (y div 16) 4 2 rest)" for rest
    using first_byte[OF b(1) b(2)] c by (simp add: a2b_step[OF sb(3)] numeral_2_eq_2[symmetric] del: a2b_base64.simps)
  have 3: "a2b_base64 (y div 16) 4 2 (table_b2a ((y mod 16) * 4 + z div 64) # rest)
      = map_sum id (\<lambda>out. b # out) (a2b_base64 (z div 64) 2 3 rest)" for rest
    using second_byte[OF b(2) b(3)] c by (simp add: a2b_step[OF sb(5)] del: a2b_base64.simps)
  have 4: "a2b_base64 (z div 64) 2 3 (table_b2a (z mod 64) # rest)
      = map_sum id (\<lambda>out. c # out) (a2b_base64 0 0 0 rest)" for rest
    using third_byte[OF b(3)] c by (simp add: a2b_step[OF sb(6)] del: a2b_base64.simps)
  show ?thesis
    unfolding 1 2 3 4 by (simp add: sum.map_comp comp_def id_def)
qed

lemma a2b_pad1:
  fixes a :: char
  defines "x \<equiv> (of_char a :: nat)"
  shows "a2b_base64 0 0 0 (table_b2a (x div 4) # table_b2a ((x mod 4) * 16) # CHR ''='' # CHR ''='' # cs)
         = Inr [a]"
proof -
  have b: "x < 256" by (simp add: x_def)
  have c: "char_of x = a" by (simp add: x_def)
  note sb = sextet_bounds[OF b b b]
  have 1: "a2b_base64 0 0 0 (table_b2a (x div 4) # rest) = a2b_base64 (x div 4) 6 1 rest" for rest
    by (simp add: a2b_step[OF sb(1)] del: a2b_base64.simps)
  have 2: "a2b_base64 (x div 4) 6 1 (table_b2a ((x mod 4) * 16) # rest)
      = map_sum id (\<lambda>out. a # out) (a2b_base64 0 4 2 rest)" for rest
    using padded_bytes[OF b b] c by (simp add: a2b_step[OF sb(2)] numeral_2_eq_2[symmetric] del: a2b_base64.simps)
  have 3: "a2b_base64 0 4 2 (CHR ''='' # CHR ''='' # cs) = Inr []"
    by (simp add: b64_valid_pad)
  show ?thesis
    unfolding 1 2 3 by simp
qed

lemma a2b_pad2:
  fixes a b :: char
  defines "x \<equiv> (of_char a :: nat)" and "y \<equiv> (of_char b :: nat)"
  shows "a2b_base64 0 0 0 (table_b2a (x div 4) # table_b2a ((x mod 4) * 16 + y div 16) #
           table_b2a ((y mod 16) * 4) # CHR ''='' # cs)
         = Inr [a, b]"
proof -
  have b: "x < 256" "y < 256" by (simp_all add: x_def y_def)
  have c: "char_of x = a" "char_of y = b" by (simp_all add: x_def y_def)
  note sb = sextet_bounds[OF b b(2)]
  have 1: "a2b_base64 0 0 0 (table_b2a (x div 4) # rest) = a2b_base64 (x div 4) 6 1 rest" for rest
    by (simp add: a2b_step[OF sb(1)] del: a2b_base64.simps)
  have 2: "a2b_base64 (x div 4) 6 1 (table_b2a ((x mod 4) * 16 + y div 16) # rest)
      = map_sum id (\<lambda>out. a # out) (a2b_base64 (y div 16) 4 2 rest)" for rest
    using first_byte[OF b(1) b(2)] c by (simp add: a2b_step[OF sb(3)] numeral_2_eq_2[symmetric] del: a2b_base64.simps)
  have 3: "a2b_base64 (y div 16) 4 2 (table_b2a ((y mod 16) * 4) # rest)
      = map_sum id (\<lambda>out. b # out) (a2b_base64 0 2 3 rest)" for rest
    using padded_bytes[OF b(1) b(2)] c by (simp add: a2b_step[OF sb(4)] del: a2b_base64.simps)
  have 4: "a2b_base64 0 2 3 (CHR ''='' # cs) = Inr []"
    by simp
  show ?thesis
    unfolding 1 2 3 4 by simp
qed

lemma a2b_base64_b64encode:
  "a2b_base64 0 0 0 (b64encode p @ rest) =
     (if length p mod 3 = 0 then map_sum id (\<lambda>out. p @ out) (a2b_base64 0 0 0 rest) else Inr p)"
proof (induction p rule: b64encode.induct)
  case 1
  show ?case by (cases "a2b_base64 0 0 0 rest") (simp_all del: a2b_base64.simps)
next
  case (2 a)
  show ?case using a2b_pad1[of a rest] by (simp add: Let_def del: a2b_base64.simps)
next
  case (3 a b)
  show ?case using a2b_pad2[of a b rest] by (simp add: Let_def del: a2b_base64.simps)
next
  case (4 a b c p)
  show ?case using a2b_quad[of a b c "b64encode p @ rest"] 4
    by (simp add: Let_def sum.map_comp comp_def id_def del: a2b_base64.simps)
qed

lemma b64decode_b64encode: "b64decode (b64encode p) = Inr p"
  using a2b_base64_b64encode[of p "[]"] unfolding b64decode_def
  by (cases "a2b_base64 0 0 0 []") (auto simp del: a2b_base64.simps(2))

lemma b64decode_b64encode_newline: "b64decode (b64encode p @ [CHR 0x0A]) = Inr p"
  using a2b_base64_b64encode[of p "[CHR 0x0A]"] unfolding b64decode_def
  by simp

lemma b64encode_alphabet: "set (b64encode p) \<subseteq> set b64_alphabet \<union> {CHR ''=''}"
proof (induction p rule: b64encode.induct)
  case (2 a)
  have "of_char a < (256::nat)" by simp
  from sextet_bounds[OF this this this] show ?case by (simp add: Let_def table_b2a_in)
next
  case (3 a b)
  have "of_char a < (256::nat)" "of_char b < (256::nat)" by simp_all
  from sextet_bounds[OF this this(2)] show ?case by (simp add: Let_def table_b2a_in)
next
  case (4 a b c p)
  have "of_char a < (256::nat)" "of_char b < (256::nat)" "of_char c < (256::nat)" by simp_all
  from sextet_bounds[OF this] 4 show ?case by (simp add: Let_def table_b2a_in)
qed simp

subsection \<open>Strings and integers\<close>

lemma str_partition_prefix:
  "sep \<noteq> [] \<Longrightarrow> str_partition sep (sep @ t) = ([], sep, t)"
  by (cases sep) simp_all

lemma str_partition_char:
  "c \<notin> set h \<Longrightarrow> str_partition [c] (h @ c # t) = (h, [c], t)"
  by (induction h) auto

lemma str_partition_absent:
  "\<not> str_contains sep s \<Longrightarrow> str_partition sep s = (s, [], [])"
  by (induction s) auto

lemma str_partition_nochar:
  "c \<notin> set s \<Longrightarrow> str_partition [c] s = (s, [], [])"
  by (induction s) auto

lemma str_split_nochar:
  "c \<notin> set s \<Longrightarrow> str_split c s = [s]"
  by (induction s) auto

lemma str_split_char:
  "c \<notin> set h \<Longrightarrow> str_split c (h @ c # t) = h # str_split c t"
  by (induction h) (auto split: list.splits)

lemma str_split_too_many:
  "c \<notin> set a \<Longrightarrow> c \<notin> set b \<Longrightarrow> c \<notin> set d \<Longrightarrow> c \<notin> set e \<Longrightarrow>
   str_split c (a @ c # b @ c # d @ c # e) = [a, b, d, e]"
  by (simp add: str_split_char str_split_nochar)

lemma strip_trailing:
  assumes "s \<noteq> []" "\<not> isspace (hd s)" "\<not> isspace (last s)" "\<forall>c \<in> set ws. isspace c"
  shows "strip (s @ ws) = s"
proof -
  have 1: "dropWhile isspace (s @ ws) = s @ ws" using assms by (cases s) auto
  have 2: "dropWhile isspace (rev ws @ rev s) = rev s"
    using assms by (cases "rev s") (auto simp: dropWhile_append last_rev hd_rev)
  show ?thesis unfolding strip_def 1 by (simp add: 2)
qed

lemma strip_unchanged:
  "s \<noteq> [] \<Longrightarrow> \<not> isspace (hd s) \<Longrightarrow> \<not> isspace (last s) \<Longrightarrow> strip s = s"
  using strip_trailing[of s "[]"] by simp

lemma strip_all_space:
  assumes "\<forall>c \<in> set ws. isspace c"
  shows "strip ws = []"
proof -
  have e: "dropWhile isspace ws = []" using assms by (simp add: dropWhile_eq_Nil_conv)
  show ?thesis unfolding strip_def e by simp
qed

lemma readline_newline:
  "CHR 0x0A \<notin> set body \<Longrightarrow> readline (body @ CHR 0x0A # rest) = (body @ [CHR 0x0A], rest)"
  by (induction body) auto

lemma isdigit_plain:
  "isdigit c \<Longrightarrow> \<not> isspace c \<and> c \<noteq> CHR ''-'' \<and> c \<noteq> CHR ''+'' \<and> c \<noteq> CHR ''$'' \<and> c \<noteq> CHR 0x0A
     \<and> (of_char c :: nat) < 128"
  unfolding isdigit_def isspace_def by auto

lemma digit_char_isdigit: "d < 10 \<Longrightarrow> isdigit (digit_char d)"
  by (simp add: isdigit_def digit_char_def)

lemma digit_char_value: "d < 10 \<Longrightarrow> of_char (digit_char d) - 48 = d"
  by (simp add: digit_char_def)

lemma str_nat_digits: "list_all isdigit (str_nat n)"
proof (induction n rule: str_nat.induct)
  case (1 n)
  show ?case
  proof (cases "n < 10")
    case True
    then show ?thesis by (subst str_nat.simps) (simp add: digit_char_isdigit)
  next
    case False
    then show ?thesis using 1 digit_char_isdigit[of "n mod 10"]
      by (subst str_nat.simps) simp
  qed
qed

lemma str_nat_nonempty: "str_nat n \<noteq> []"
  by (subst str_nat.simps) simp

lemma digits_value_snoc:
  "digits_value (ds @ [c]) = 10 * digits_value ds + ((of_char c :: nat) - 48)"
  by (simp add: digits_value_def)

lemma digits_value_str_nat: "digits_value (str_nat n) = n"
proof (induction n rule: str_nat.induct)
  case (1 n)
  show ?case
  proof (cases "n < 10")
    case True
    then show ?thesis by (subst str_nat.simps) (simp add: digit_char_value digits_value_def)
  next
    case False
    then show ?thesis using 1 digit_char_value[of "n mod 10"]
      by (subst str_nat.simps) (simp add: digits_value_snoc)
  qed
qed

lemma parse_digits_str_nat: "parse_digits (str_nat n) = Inr n"
  by (simp add: parse_digits_def str_nat_digits str_nat_nonempty digits_value_str_nat)

lemma str_nat_hd_last: "isdigit (hd (str_nat n)) \<and> isdigit (last (str_nat n))"
  using str_nat_digits[of n] str_nat_nonempty[of n]
  by (cases "str_nat n") (auto simp: list_all_iff)

lemma strip_str_nat: "strip (str_nat n) = str_nat n"
  using str_nat_hd_last[of n] isdigit_plain
  by (intro strip_unchanged) (auto simp: str_nat_nonempty)

lemma int_of_str_str_nat: "int_of_str (str_nat n) = Inr (int n)"
proof -
  obtain c cs where e: "str_nat n = c # cs" using str_nat_nonempty[of n] by (cases "str_nat n") auto
  have "isdigit c" using str_nat_hd_last[of n] e by simp
  then have "c \<noteq> CHR ''-''" "c \<noteq> CHR ''+''" using isdigit_plain by blast+
  then show ?thesis
    using parse_digits_str_nat[of n] strip_str_nat[of n] unfolding e by (simp add: int_of_str_def)
qed

lemma strip_minus_str_nat: "strip (CHR ''-'' # str_nat n) = CHR ''-'' # str_nat n"
  using str_nat_hd_last[of n] isdigit_plain
  by (intro strip_unchanged) (auto simp: str_nat_nonempty isspace_def)

lemma int_of_str_str_int: "int_of_str (str_int i) = Inr i"
proof (cases "i < 0")
  case True
  then show ?thesis
    by (simp add: str_int_def int_of_str_def strip_minus_str_nat parse_digits_str_nat)
next
  case False
  then show ?thesis by (simp add: str_int_def int_of_str_str_nat)
qed

lemma str_int_no_space: "c \<in> set (str_int i) \<Longrightarrow> \<not> isspace_unicode c"
proof -
  have "\<not> isspace_unicode c" if "isdigit c" for c
    using that unfolding isdigit_def isspace_unicode_def isspace_def by auto
  then have "\<not> isspace_unicode c" if "c \<in> set (str_nat n)" for c n
    using that str_nat_digits[of n] by (auto simp: list_all_iff)
  moreover have "\<not> isspace_unicode (CHR ''-'')"
    by (simp add: isspace_unicode_def isspace_def)
  ultimately show "c \<in> set (str_int i) \<Longrightarrow> \<not> isspace_unicode c"
    by (auto simp: str_int_def split: if_splits)
qed

lemma int_of_unicode_str_int: "int_of_unicode (str_int i) = Inr i"
proof -
  have "map (\<lambda>c. if isspace_unicode c then CHR '' '' else c) (str_int i) = str_int i"
    using str_int_no_space[of _ i] by (induction "str_int i") (auto simp: map_idI)
  then show ?thesis by (simp add: int_of_unicode_def int_of_str_str_int)
qed

lemma decode_ascii_str_int: "decode_ascii (str_int i) = Inr (str_int i)"
proof -
  have "list_all (\<lambda>c. (of_char c :: nat) < 128) (str_nat n)" for n
    using str_nat_digits[of n] isdigit_plain by (auto simp: list_all_iff)
  then show ?thesis by (simp add: decode_ascii_def str_int_def)
qed

lemma str_nat_no_dollar: "CHR ''$'' \<notin> set (str_nat n)" "CHR 0x0A \<notin> set (str_nat n)"
  using str_nat_digits[of n] isdigit_plain by (auto simp: list_all_iff)

section \<open>Frames\<close>

lemma str_contains_take1: "str_contains [c] (take 1 t) = (t \<noteq> [] \<and> hd t = c)"
  by (cases t) auto

lemma b64encode_plain:
  assumes "c \<in> set (b64encode p)"
  shows "c \<noteq> CHR ''$''" "\<not> isspace c" "c \<noteq> CHR 0x0A"
  using b64encode_alphabet[of p] assms b64_alphabet_plain[of c]
  by (auto simp: isspace_def)

lemma marker_nonempty: "BASE64_MARKER \<noteq> []"
  by (simp add: BASE64_MARKER_def)

lemma data_tail_not_connect:
  "\<not> str_contains ''$'' (take 1 (b64encode p @ [CHR 0x0A]))"
proof (cases "b64encode p")
  case Nil
  then show ?thesis by simp
next
  case (Cons c cs)
  then have "c \<in> set (b64encode p)" by simp
  from b64encode_plain(1)[OF this] show ?thesis using Cons by simp
qed

lemma read_line_data_frame:
  assumes "CHR ''$'' \<notin> set sid" "proxy_sessions st sid = Some (a, p, q)"
  shows "read_line st (data_frame sid payload) =
     (None, st\<lparr>proxy_sessions := (proxy_sessions st)(sid \<mapsto> (a, p, q @ [payload])),
               proxy_stderr := proxy_stderr st @
                 [Text ('':'' @ strip (data_frame sid payload) @ [CHR 0x0A])]\<rparr>)"
proof -
  have 1: "str_partition BASE64_MARKER (data_frame sid payload)
             = ([], BASE64_MARKER, sid @ CHR ''$'' # b64encode payload @ [CHR 0x0A])"
    unfolding data_frame_def using str_partition_prefix[OF marker_nonempty] by simp
  have 2: "str_partition ''$'' (sid @ CHR ''$'' # b64encode payload @ [CHR 0x0A])
             = (sid, ''$'', b64encode payload @ [CHR 0x0A])"
    using str_partition_char[OF assms(1)] by simp
  have nc: "str_contains ''$'' (take 1 (b64encode payload @ [CHR 0x0A])) = False"
    using data_tail_not_connect[of payload] by simp
  show ?thesis
    apply (simp only: read_line_def Let_def 1 2 prod.case simp_thms if_True if_False nc
        b64decode_b64encode_newline sum.case log_text_def)
    apply (simp add: assms(2))
    done
qed

lemma strip_data_frame:
  "strip (data_frame sid payload) = BASE64_MARKER @ sid @ ''$'' @ b64encode payload"
proof -
  let ?s = "BASE64_MARKER @ sid @ ''$'' @ b64encode payload"
  have l: "\<not> isspace (last ?s)"
  proof (cases "b64encode payload = []")
    case True
    then show ?thesis by (simp add: isspace_def)
  next
    case False
    then have "last ?s \<in> set (b64encode payload)" by simp
    then show ?thesis by (rule b64encode_plain(2))
  qed
  have h: "\<not> isspace (hd ?s)" by (simp add: BASE64_MARKER_def isspace_def)
  have n: "?s \<noteq> []" by (simp add: BASE64_MARKER_def)
  have "strip (?s @ [CHR 0x0A]) = ?s"
    by (rule strip_trailing[OF n h l]) (simp add: isspace_def)
  then show ?thesis by (simp add: data_frame_def)
qed

lemma stdin_line_data_frame:
  assumes "CHR ''$'' \<notin> set sid"
  shows "stdin_line m (data_frame sid payload) =
     (case (case get_session m sid of Inl e \<Rightarrow> Inl e | Inr s \<Rightarrow> get_response s payload) of
        Inl e \<Rightarrow> m\<lparr>stderr := stderr m @ [Traceback e]\<rparr>
      | Inr s' \<Rightarrow> m\<lparr>sessions := (sessions m)(sid \<mapsto> s')\<rparr>)"
proof -
  have 0: "(BASE64_MARKER @ sid @ ''$'' @ b64encode payload = []) = False"
    by (simp add: BASE64_MARKER_def)
  have 1: "str_partition BASE64_MARKER (BASE64_MARKER @ sid @ ''$'' @ b64encode payload)
             = ([], BASE64_MARKER, sid @ ''$'' @ b64encode payload)"
    using str_partition_prefix[OF marker_nonempty] by simp
  have 2: "str_partition ''$'' (sid @ ''$'' @ b64encode payload)
             = (sid, ''$'', b64encode payload)"
    using str_partition_char[OF assms(1)] by simp
  show ?thesis
    by (simp only: stdin_line_def Let_def strip_data_frame 0 1 2 prod.case simp_thms if_True
        if_False b64decode_b64encode sum.case)
qed

lemma strip_host_newline:
  assumes "host = [] \<or> (\<not> isspace (hd host) \<and> \<not> isspace (last host))"
  shows "strip (host @ [CHR 0x0A]) = host"
proof (cases "host = []")
  case True
  then show ?thesis using strip_all_space[of "[CHR 0x0A]"] by (simp add: isspace_def)
next
  case False
  with assms show ?thesis by (intro strip_trailing) (auto simp: isspace_def)
qed

lemma read_line_connect_frame:
  assumes "CHR ''$'' \<notin> set sid" "CHR ''$'' \<notin> set host"
    and "host = [] \<or> (\<not> isspace (hd host) \<and> \<not> isspace (last host))"
  shows "read_line st (connect_frame sid (Some host, Some port)) =
     (None, spawn_worker
              (log_text st ('':'' @ strip (connect_frame sid (Some host, Some port)) @ [CHR 0x0A]))
              sid host (int port))"
proof -
  let ?tail = "CHR ''$'' # str_nat port @ CHR ''$'' # host @ [CHR 0x0A]"
  have 1: "str_partition BASE64_MARKER (connect_frame sid (Some host, Some port))
             = ([], BASE64_MARKER, sid @ CHR ''$'' # ?tail)"
    unfolding connect_frame_def using str_partition_prefix[OF marker_nonempty]
    by (simp add: format_port_def format_field_def)
  have 2: "str_partition ''$'' (sid @ CHR ''$'' # ?tail) = (sid, ''$'', ?tail)"
    using str_partition_char[OF assms(1)] by simp
  have 3: "str_contains ''$'' (take 1 ?tail) = True" by simp
  have 4: "str_split (CHR ''$'') ?tail = [[], str_nat port, host @ [CHR 0x0A]]"
    using str_split_char[of "CHR ''$''" "[]"] str_split_char[OF str_nat_no_dollar(1)]
      str_split_nochar[of "CHR ''$''" "host @ [CHR 0x0A]"] assms(2)
    by simp
  show ?thesis
    by (simp only: read_line_def Let_def 1 2 3 4 prod.case simp_thms if_True if_False
        list.case int_of_str_str_nat sum.case strip_host_newline[OF assms(3)])
qed

lemma readline_data_frame:
  assumes "CHR 0x0A \<notin> set sid"
  shows "readline (data_frame sid payload @ rest) = (data_frame sid payload, rest)"
proof -
  have "CHR 0x0A \<notin> set (BASE64_MARKER @ sid @ ''$'' @ b64encode payload)"
    using assms b64encode_plain(3)[of "CHR 0x0A" payload] by (auto simp: BASE64_MARKER_def)
  from readline_newline[OF this, of rest] show ?thesis by (simp add: data_frame_def)
qed

lemma readline_connect_frame:
  assumes "CHR 0x0A \<notin> set sid" "CHR 0x0A \<notin> set host"
  shows "readline (connect_frame sid (Some host, Some port) @ rest) =
           (connect_frame sid (Some host, Some port), rest)"
proof -
  have "CHR 0x0A \<notin> set (BASE64_MARKER @ sid @ ''$$'' @ str_nat port @ ''$'' @ host)"
    using assms str_nat_no_dollar(2)[of port] by (auto simp: BASE64_MARKER_def)
  from readline_newline[OF this, of rest] show ?thesis
    by (simp add: connect_frame_def format_port_def format_field_def)
qed

text \<open>The dotted name of an IPv4 address is carried unchanged.\<close>

lemma str_nat_clean:
  "CHR ''$'' \<notin> set (str_nat n)" "CHR 0x0A \<notin> set (str_nat n)"
  "\<not> isspace (hd (str_nat n))" "\<not> isspace (last (str_nat n))"
  using str_nat_no_dollar[of n] str_nat_hd_last[of n] isdigit_plain by blast+

lemma inet_ntoa_clean:
  assumes "inet_ntoa d = Inr host"
  shows "clean_host host"
proof -
  obtain a b c e where h: "host = str_nat a @ ''.'' @ str_nat b @ ''.'' @ str_nat c @ ''.'' @ str_nat e"
    using assms by (auto simp: inet_ntoa_def split: list.splits)
  have "hd host = hd (str_nat a)" "last host = last (str_nat e)"
    using str_nat_nonempty[of a] str_nat_nonempty[of e] unfolding h by simp_all
  then show ?thesis
    using str_nat_clean[of a] str_nat_clean[of b] str_nat_clean[of c] str_nat_clean[of e]
    unfolding clean_host_def by (simp add: h)
qed

section \<open>Properties of the local peer\<close>

lemma response_bytes:
  "response r = [char_of (5::nat), char_of r, char_of (0::nat), char_of (1::nat), char_of (0::nat),
     char_of (0::nat), char_of (0::nat), char_of (0::nat), char_of (0::nat), char_of (0::nat)]"
  unfolding response_def SOCKS_VERSION_def by (simp add: numeral_eq_Suc)

lemma response_length: "length (response r) = 10"
  by (simp add: response_def)

subsection \<open>The direct relay only appends to what the client receives\<close>

lemma relay_rlist_wfile:
  "\<exists>rest. wfile (fst (snd (relay_rlist (s, h, dest, out) rl))) = wfile h @ rest"
proof (induction rl arbitrary: s h dest out)
  case Nil
  show ?case by simp
next
  case (Cons e rl)
  obtain f r b where e: "e = (f, r, b)" by (cases e)
  show ?case
  proof (cases r)
    case IOError
    then show ?thesis using Cons[of "fst (Session_close s out)" h dest "snd (Session_close s out)"] e
      by (simp add: Session_close_def)
  next
    case (Data data)
    show ?thesis
    proof (cases "data = [] \<or> b")
      case True
      then show ?thesis
        using Cons[of "fst (Session_close s out)" h dest "snd (Session_close s out)"] e Data
        by (auto simp: Session_close_def)
    next
      case False
      show ?thesis
      proof (cases f)
        case Connection
        then show ?thesis using Cons[of s h "dest @ data" out] e Data False by simp
      next
        case ProxySocket
        obtain rest where "wfile (fst (snd (relay_rlist (s, connection_sendall h data, dest, out) rl)))
            = wfile (connection_sendall h data) @ rest"
          using Cons[of s "connection_sendall h data" dest out] by blast
        then show ?thesis using e Data False ProxySocket
          by (simp add: connection_sendall_def)
      qed
    qed
  qed
qed

lemma relay_loop_wfile:
  "\<exists>rest. wfile (fst (snd (relay_loop (s, h, dest, out) selects))) = wfile h @ rest"
proof (induction selects arbitrary: s h dest out)
  case Nil
  show ?case by simp
next
  case (Cons rl selects)
  show ?case
  proof (cases "is_alive s")
    case False
    then show ?thesis by simp
  next
    case True
    obtain s1 h1 d1 o1 where st: "relay_rlist (s, h, dest, out) rl = (s1, h1, d1, o1)"
      by (cases "relay_rlist (s, h, dest, out) rl") auto
    obtain r1 where r1: "wfile h1 = wfile h @ r1"
      using relay_rlist_wfile[of s h dest out rl] st by auto
    obtain r2 where "wfile (fst (snd (relay_loop (s1, h1, d1, o1) selects))) = wfile h1 @ r2"
      using Cons[of s1 h1 d1 o1] by blast
    then show ?thesis using True st r1 by simp
  qed
qed

subsection \<open>The relay loop of a tunneled session\<close>

lemma connect_loop_closed: "\<not> is_alive s \<Longrightarrow> connect_loop s q reads = (s, q)"
  by (cases reads) simp_all

lemma data_frame_empty: "data_frame sid [] = ''$BASE64$'' @ sid @ ''$'' @ [CHR 0x0A]"
  by (simp add: data_frame_def BASE64_MARKER_def)

lemma connect_loop_eof:
  "is_alive s \<Longrightarrow>
   connect_loop s q (Data [] # reads) = (ClipsSession_close s, q @ [data_frame (session_id s) []])"
  by (simp add: connect_loop_closed ClipsSession_close_def)

lemma connect_loop_keeps:
  "handler (fst (connect_loop s q reads)) = handler s
   \<and> session_id (fst (connect_loop s q reads)) = session_id s
   \<and> (\<exists>rest. snd (connect_loop s q reads) = q @ rest)"
proof (induction reads arbitrary: s q)
  case Nil
  show ?case by simp
next
  case (Cons r reads)
  show ?case
  proof (cases "is_alive s")
    case False
    then show ?thesis by simp
  next
    case True
    show ?thesis
    proof (cases r)
      case IOError
      then show ?thesis using True Cons[of "ClipsSession_close s" q]
        by (simp add: ClipsSession_close_def)
    next
      case (Data data)
      let ?s = "if data = [] then ClipsSession_close s else s"
      let ?q = "q @ [data_frame (session_id s) data]"
      have "handler ?s = handler s" "session_id ?s = session_id s"
        by (simp_all add: ClipsSession_close_def)
      moreover obtain rest where "snd (connect_loop ?s ?q reads) = ?q @ rest"
        using Cons[of ?s ?q] by blast
      ultimately show ?thesis using True Data Cons[of ?s ?q] by simp
    qed
  qed
qed

lemma connect_frame_null:
  "connect_frame sid (None, None) = ''$BASE64$'' @ sid @ ''$$None$None'' @ [CHR 0x0A]"
  by (simp add: connect_frame_def BASE64_MARKER_def format_port_def format_field_def)

lemma command_handling_connect:
  assumes "create_session m rnd i = Some (s, m1, i')"
  shows "\<exists>h' m'. command_handling h m rnd i reads CONNECT address = Some (h', m', i')
           \<and> wfile h' = wfile h
           \<and> (\<exists>rest. mq m' = mq m @ [connect_frame (session_id s) address] @ rest)
           \<and> (\<exists>s'. sessions m' (session_id s) = Some s' \<and> handler s' = Some h)"
proof -
  let ?s0 = "s\<lparr>handler := Some h, proxy_socket := None\<rparr>"
  let ?q0 = "mq m1 @ [connect_frame (session_id s) address]"
  obtain s1 q where c: "connect_loop ?s0 ?q0 reads = (s1, q)" by (cases "connect_loop ?s0 ?q0 reads")
  have k: "handler s1 = Some h" "session_id s1 = session_id s" "\<exists>rest. q = ?q0 @ rest"
    using connect_loop_keeps[of ?s0 ?q0 reads] c by simp_all
  have mq1: "mq m1 = mq m"
    using assms by (auto simp: create_session_def split: option.splits)
  let ?s2 = "if is_alive s1 then s1 else ClipsSession_close s1"
  have k2: "handler ?s2 = Some h" "session_id ?s2 = session_id s"
    using k by (simp_all add: ClipsSession_close_def)
  have "command_handling h m rnd i reads CONNECT address =
          Some (h, m1\<lparr>sessions := (sessions m1)(session_id s \<mapsto> ?s2), mq := q\<rparr>, i')"
    using assms c k2 by (simp add: command_handling_def ClipsSession_connect_def Let_def)
  then show ?thesis using k(3) k2 mq1 by auto
qed

section \<open>Properties of the session registry\<close>

lemma random_id_length: "length (random_id rnd i) = 8"
  by (simp add: random_id_def ID_SIZE_def)

lemma random_choice_in: "seq \<noteq> [] \<Longrightarrow> random_choice rnd i seq \<in> set seq"
  by (simp add: random_choice_def)

lemma random_id_charset: "set (random_id rnd i) \<subseteq> set ID_CHARSET"
  using random_choice_in[of ID_CHARSET rnd]
  by (auto simp: random_id_def ID_CHARSET_def)

lemma create_session_id_returns:
  assumes "registry (random_id rnd (i + ID_SIZE * n)) = None"
  shows "\<exists>k \<le> n. create_session_id rnd i registry =
            Some (random_id rnd (i + ID_SIZE * k), i + ID_SIZE * Suc k)
          \<and> registry (random_id rnd (i + ID_SIZE * k)) = None"
  using assms
proof (induction n arbitrary: i)
  case 0
  then show ?case by (subst create_session_id.simps) simp
next
  case (Suc n)
  show ?case
  proof (cases "registry (random_id rnd i) = None")
    case True
    then have "create_session_id rnd i registry = Some (random_id rnd i, i + ID_SIZE)"
      by (subst create_session_id.simps) simp
    then show ?thesis using True by (intro exI[of _ 0]) simp
  next
    case False
    have "registry (random_id rnd ((i + ID_SIZE) + ID_SIZE * n)) = None"
      using Suc.prems by (simp add: algebra_simps)
    from Suc.IH[OF this] obtain k where k: "k \<le> n"
      "create_session_id rnd (i + ID_SIZE) registry =
         Some (random_id rnd (i + ID_SIZE + ID_SIZE * k), i + ID_SIZE + ID_SIZE * Suc k)"
      "registry (random_id rnd (i + ID_SIZE + ID_SIZE * k)) = None"
      by blast
    have "create_session_id rnd i registry = create_session_id rnd (i + ID_SIZE) registry"
      using False by (subst create_session_id.simps) simp
    then show ?thesis using k by (intro exI[of _ "Suc k"]) (simp add: algebra_simps)
  qed
qed

lemma registry_ok_empty: "registry_ok \<lparr>sessions = Map.empty, mq = [], stderr = []\<rparr>"
  by (simp add: registry_ok_def)

lemma create_session_id_Some:
  assumes "create_session_id rnd i registry = Some y"
  shows "\<exists>k. y = (random_id rnd (i + ID_SIZE * k), i + ID_SIZE * Suc k)
       \<and> registry (random_id rnd (i + ID_SIZE * k)) = None"
proof (rule create_session_id.raw_induct[where
      P = "\<lambda>rnd i registry y. \<exists>k. y = (random_id rnd (i + ID_SIZE * k), i + ID_SIZE * Suc k)
             \<and> registry (random_id rnd (i + ID_SIZE * k)) = None", OF _ assms], goal_cases)
  case (1 f rnd i registry y)
  show ?case
  proof (cases "registry (random_id rnd i) = None")
    case True
    then show ?thesis using 1(2) by (intro exI[of _ 0]) auto
  next
    case False
    then have "f rnd (i + ID_SIZE) registry = Some y" using 1(2) by simp
    from 1(1)[OF this] obtain k where
      "y = (random_id rnd (i + ID_SIZE + ID_SIZE * k), i + ID_SIZE + ID_SIZE * Suc k)"
      "registry (random_id rnd (i + ID_SIZE + ID_SIZE * k)) = None"
      by blast
    then show ?thesis by (intro exI[of _ "Suc k"]) (simp add: algebra_simps)
  qed
qed

lemma create_session_id_never_returns:
  assumes "\<forall>n. registry (random_id rnd (i + ID_SIZE * n)) \<noteq> None"
  shows "create_session_id rnd i registry = None"
proof (cases "create_session_id rnd i registry")
  case None
  then show ?thesis .
next
  case (Some y)
  from create_session_id_Some[OF this] assms show ?thesis by blast
qed

text \<open>An identifier that the registry generates holds no separator and no newline.\<close>

lemma generated_id_clean:
  assumes "create_session m rnd i = Some (s, m', i')"
  shows "CHR ''$'' \<notin> set (session_id s)" "CHR 0x0A \<notin> set (session_id s)"
proof -
  obtain sid j where c: "create_session_id rnd i (sessions m) = Some (sid, j)" and s: "s = ClipsSession_init sid"
    using assms by (auto simp: create_session_def split: option.splits)
  from create_session_id_Some[OF c] obtain k where "sid = random_id rnd (i + ID_SIZE * k)" by auto
  then have "set sid \<subseteq> set ID_CHARSET" using random_id_charset by simp
  moreover have "CHR ''$'' \<notin> set ID_CHARSET" "CHR 0x0A \<notin> set ID_CHARSET"
    by (simp_all add: ID_CHARSET_def)
  ultimately show "CHR ''$'' \<notin> set (session_id s)" "CHR 0x0A \<notin> set (session_id s)"
    using s by (auto simp: ClipsSession_init_def)
qed

section \<open>Properties of the remote peer\<close>

subsection \<open>The close item in the inbound queue\<close>

lemma drain_queue_close_item:
  "[] \<notin> set pre \<Longrightarrow>
   \<exists>lg'. drain_queue sid (pre @ [] # post) sock lg = (False, post, sock @ concat pre, lg')"
proof (induction pre arbitrary: sock lg)
  case Nil
  show ?case by simp
next
  case (Cons d pre)
  then have "d \<noteq> []" "[] \<notin> set pre" by auto
  then show ?case using Cons.IH[of "sock @ d"] by simp
qed

lemma send_sessions [simp]: "proxy_sessions (SOCKSHandler_send st sid data) = proxy_sessions st"
  by (simp add: SOCKSHandler_send_def log_text_def Let_def)

lemma log_text_sessions [simp]: "proxy_sessions (log_text st msg) = proxy_sessions st"
  by (simp add: log_text_def)

lemma worker_iter_close_item:
  assumes "proxy_sessions st sid = Some (a, p, pre @ [] # post)" "[] \<notin> set pre"
  shows "\<exists>st' sock'. worker_iter st sid sock ev = Inr (st', False, sock')"
proof -
  have d: "\<exists>lg'. drain_queue sid (pre @ [] # post) sock lg = (False, post, sock @ concat pre, lg')" for lg
    by (rule drain_queue_close_item[OF assms(2)])
  show ?thesis
  proof (cases ev)
    case None
    obtain lg' where "drain_queue sid (pre @ [] # post) sock (proxy_stderr st) = (False, post, sock @ concat pre, lg')"
      using d by blast
    then show ?thesis using None assms(1) by (simp add: worker_iter_def)
  next
    case (Some r)
    show ?thesis
    proof (cases r)
      case IOError
      then show ?thesis using Some by (simp add: worker_iter_def)
    next
      case (Data data)
      show ?thesis
      proof (cases "data = []")
        case True
        then show ?thesis using Some Data assms(1) by (simp add: worker_iter_def Let_def)
      next
        case False
        let ?st = "log_text (SOCKSHandler_send st sid data)
            (''[PROXY] RESPONSE data to '' @ sid @ '' [len='' @ str_nat (length data) @ '']'' @ [CHR 0x0A])"
        obtain lg' where "drain_queue sid (pre @ [] # post) sock (proxy_stderr ?st) = (False, post, sock @ concat pre, lg')"
          using d by blast
        then show ?thesis using Some Data False assms(1) by (simp add: worker_iter_def Let_def)
      qed
    qed
  qed
qed

lemma worker_loop_close_item:
  assumes "proxy_sessions st sid = Some (a, p, pre @ [] # post)" "[] \<notin> set pre"
  shows "\<exists>st' sock'. worker_loop st sid sock (ev # evs) = Inr (st', False, sock')"
proof -
  obtain st' sock' where "worker_iter st sid sock ev = Inr (st', False, sock')"
    using worker_iter_close_item[OF assms] by blast
  then show ?thesis by simp
qed

section \<open>Properties of the two readers\<close>

subsection \<open>Lines without the marker\<close>

lemma str_contains_sublist: "str_contains sub s = sublist sub s"
  by (induction s) (simp_all add: sublist_Cons_right)

lemma sublist_strip: "sublist (strip s) s"
proof -
  have "sublist (dropWhile isspace (rev (dropWhile isspace s))) (rev (dropWhile isspace s))"
    by simp
  then have "sublist (strip s) (dropWhile isspace s)"
    unfolding strip_def by (simp add: sublist_rev_left)
  moreover have "sublist (dropWhile isspace s) s" by simp
  ultimately show ?thesis by (rule sublist_order.order.trans)
qed

lemma str_contains_strip: "\<not> str_contains sub s \<Longrightarrow> \<not> str_contains sub (strip s)"
  unfolding str_contains_sublist
  using sublist_strip[of s] sublist_order.order.trans by blast

lemma stdin_line_no_marker:
  assumes "\<not> str_contains BASE64_MARKER line"
  shows "stdin_line m line = m"
proof (cases "strip line = []")
  case True
  then show ?thesis by (simp add: stdin_line_def)
next
  case False
  have "str_partition BASE64_MARKER (strip line) = (strip line, [], [])"
    by (rule str_partition_absent[OF str_contains_strip[OF assms]])
  then show ?thesis using False by (simp add: stdin_line_def Let_def)
qed

lemma read_line_no_marker:
  assumes "\<not> str_contains BASE64_MARKER line" "line \<noteq> []"
  shows "read_line st line =
     (Some line, st\<lparr>proxy_stderr := proxy_stderr st @ [Text ('':'' @ strip line @ [CHR 0x0A])]\<rparr>)"
  using str_partition_absent[OF assms(1)] assms(2)
  by (simp add: read_line_def Let_def log_text_def)

subsection \<open>Malformed frames\<close>

lemma strip_Nil: "strip [] = []"
  by (simp add: strip_def)

lemma stdin_line_malformed:
  assumes "strip line = BASE64_MARKER @ rest" "str_partition ''$'' rest = (sid, sep, payload)"
    and "b64decode payload = Inl e \<or> sessions m sid = None"
  shows "stdin_line m line =
     m\<lparr>stderr := stderr m @ [Traceback (case b64decode payload of Inl e' \<Rightarrow> e' | Inr d \<Rightarrow> KeyError)]\<rparr>"
proof -
  have 1: "str_partition BASE64_MARKER (BASE64_MARKER @ rest) = ([], BASE64_MARKER, rest)"
    by (rule str_partition_prefix[OF marker_nonempty])
  show ?thesis
    using assms(3)
    by (cases "b64decode payload")
       (simp_all add: stdin_line_def Let_def assms(1) marker_nonempty 1 assms(2) get_session_def)
qed

lemma read_line_malformed:
  assumes "line = BASE64_MARKER @ rest" "str_partition ''$'' rest = (sid, sep, payload)"
    and "\<not> str_contains ''$'' (take 1 payload)"
    and "b64decode payload = Inl e \<or> proxy_sessions st sid = None"
  shows "read_line st line =
     (None, st\<lparr>proxy_stderr := proxy_stderr st @
        [Text ('':'' @ strip line @ [CHR 0x0A]),
         Traceback (case b64decode payload of Inl e' \<Rightarrow> e' | Inr d \<Rightarrow> KeyError)]\<rparr>)"
proof -
  have 1: "str_partition BASE64_MARKER (BASE64_MARKER @ rest) = ([], BASE64_MARKER, rest)"
    by (rule str_partition_prefix[OF marker_nonempty])
  have 3: "str_contains ''$'' (take 1 payload) = False" using assms(3) by simp
  show ?thesis
    using assms(4)
    apply (simp only: read_line_def Let_def assms(1) 1 assms(2) prod.case simp_thms if_True
        if_False 3)
    apply (cases "b64decode payload")
     apply (simp_all add: log_text_def)
    done
qed

text \<open>
  The decoder skips every character that has no entry in its table: a payload decodes to what
  its valid characters decode to, so characters outside the base64 alphabet never make
  \<open>b64decode\<close> raise.
\<close>

lemma find_valid_filter: "find_valid (filter b64_valid s) n = find_valid s n"
  by (induction s arbitrary: n) simp_all

lemma not_b64_valid_skipped:
  assumes "\<not> b64_valid c"
  shows "a2b_base64 lc lb qp (c # cs) = a2b_base64 lc lb qp cs"
  using assms by (auto simp: b64_valid_def)

lemma a2b_base64_filter:
  "a2b_base64 lc lb qp (filter b64_valid s) = a2b_base64 lc lb qp s"
proof (induction s arbitrary: lc lb qp)
  case Nil
  show ?case by simp
next
  case (Cons c cs)
  show ?case
  proof (cases "b64_valid c")
    case False
    then show ?thesis using Cons.IH not_b64_valid_skipped by simp
  next
    case True
    have fv: "find_valid (c # filter b64_valid cs) 1 = find_valid (c # cs) 1"
      using True by (simp add: find_valid_filter)
    have "a2b_base64 lc lb qp (c # filter b64_valid cs) = a2b_base64 lc lb qp (c # cs)"
      unfolding a2b_base64.simps fv Cons.IH ..
    then show ?thesis using True by simp
  qed
qed

lemma b64decode_filter: "b64decode (filter b64_valid s) = b64decode s"
  by (simp add: b64decode_def a2b_base64_filter)

text \<open>
  A frame whose payload decodes and whose identifier is known is applied: on the local peer
  the payload goes to \<open>get_response\<close>, on the remote peer to the queue of the session.
\<close>

lemma stdin_line_applied:
  assumes "strip line = BASE64_MARKER @ rest" "str_partition ''$'' rest = (sid, sep, payload)"
    and "b64decode payload = Inr d" "sessions m sid = Some s"
  shows "stdin_line m line =
     (case get_response s d of
        Inl e' \<Rightarrow> m\<lparr>stderr := stderr m @ [Traceback e']\<rparr>
      | Inr s' \<Rightarrow> m\<lparr>sessions := (sessions m)(sid \<mapsto> s')\<rparr>)"
proof -
  have 1: "str_partition BASE64_MARKER (BASE64_MARKER @ rest) = ([], BASE64_MARKER, rest)"
    by (rule str_partition_prefix[OF marker_nonempty])
  show ?thesis
    by (simp add: stdin_line_def Let_def assms marker_nonempty 1 get_session_def)
qed

lemma read_line_applied:
  assumes "line = BASE64_MARKER @ rest" "str_partition ''$'' rest = (sid, sep, payload)"
    and "\<not> str_contains ''$'' (take 1 payload)"
    and "b64decode payload = Inr d" "proxy_sessions st sid = Some (a, p, q)"
  shows "read_line st line =
     (None, st\<lparr>proxy_stderr := proxy_stderr st @ [Text ('':'' @ strip line @ [CHR 0x0A])],
               proxy_sessions := (proxy_sessions st)(sid \<mapsto> (a, p, q @ [d]))\<rparr>)"
proof -
  have 1: "str_partition BASE64_MARKER (BASE64_MARKER @ rest) = ([], BASE64_MARKER, rest)"
    by (rule str_partition_prefix[OF marker_nonempty])
  have 3: "str_contains ''$'' (take 1 payload) = False" using assms(3) by simp
  show ?thesis
    apply (simp only: read_line_def Let_def assms(1) 1 assms(2) prod.case simp_thms if_True
        if_False 3 assms(4))
    apply (simp add: log_text_def assms(5))
    done
qed

lemma read_line_frame_None:
  "fst (read_line st (BASE64_MARKER @ rest)) = None"
proof -
  have 1: "str_partition BASE64_MARKER (BASE64_MARKER @ rest) = ([], BASE64_MARKER, rest)"
    by (rule str_partition_prefix[OF marker_nonempty])
  show ?thesis
    apply (simp only: read_line_def Let_def 1 prod.case simp_thms if_True if_False)
    apply (simp split: prod.splits sum.splits option.splits list.splits del: str_contains.simps)
    done
qed

lemma SOCKSHandler_read_frame:
  "SOCKSHandler_read st ((BASE64_MARKER @ rest) # lines) =
     SOCKSHandler_read (snd (read_line st (BASE64_MARKER @ rest))) lines"
  using read_line_frame_None[of st rest]
  by (cases "read_line st (BASE64_MARKER @ rest)") simp

subsection \<open>The end of the stream on the remote peer\<close>

text \<open>
  At the end of its stream \<open>readline()\<close> returns the empty string, again and again. The
  reading loop of the remote peer takes it for a frame and never returns it.
\<close>

lemma read_line_eof: "fst (read_line st []) = None"
  by (simp add: read_line_def Let_def b64decode_def split: option.splits prod.splits)

lemma read_eof_never_returns: "fst (SOCKSHandler_read st (replicate n [])) = None"
proof (induction n arbitrary: st)
  case 0
  show ?case by simp
next
  case (Suc n)
  obtain st' where "read_line st [] = (None, st')"
    using read_line_eof[of st] by (cases "read_line st []") auto
  then show ?case using Suc[of st'] by simp
qed

subsection \<open>Sessions that are closed stay closed\<close>

lemma get_response_stays_closed:
  assumes "get_response s data = Inr s'"
  shows "session_id s' = session_id s" "is_alive s' \<Longrightarrow> is_alive s"
  using assms
  by (auto simp: get_response_def ClipsSession_close_def
      split: if_splits option.splits sum.splits)

lemma stdin_line_cases:
  "stdin_line m line = m
   \<or> (\<exists>e. stdin_line m line = m\<lparr>stderr := stderr m @ [Traceback e]\<rparr>)
   \<or> (\<exists>sid s0 data s'. sessions m sid = Some s0 \<and> get_response s0 data = Inr s'
        \<and> stdin_line m line = m\<lparr>sessions := (sessions m)(sid \<mapsto> s')\<rparr>)"
  unfolding stdin_line_def Let_def get_session_def
  by (auto split: prod.splits sum.splits option.splits) blast+



subsection \<open>Every session stays under its own identifier\<close>

lemma registry_ok_stdin_line: "registry_ok m \<Longrightarrow> registry_ok (stdin_line m line)"
proof -
  assume ok: "registry_ok m"
  consider (a) "stdin_line m line = m"
    | (b) e where "stdin_line m line = m\<lparr>stderr := stderr m @ [Traceback e]\<rparr>"
    | (c) sid s0 data s' where "sessions m sid = Some s0" "get_response s0 data = Inr s'"
        "stdin_line m line = m\<lparr>sessions := (sessions m)(sid \<mapsto> s')\<rparr>"
    using stdin_line_cases[of m line] by blast
  then show ?thesis
  proof cases
    case a
    then show ?thesis using ok by simp
  next
    case b
    then show ?thesis using ok by (simp add: registry_ok_def)
  next
    case c
    have "session_id s' = sid"
      using get_response_stays_closed(1)[OF c(2)] ok c(1) by (simp add: registry_ok_def)
    then show ?thesis using ok c(3) by (auto simp: registry_ok_def)
  qed
qed

lemma registry_ok_stdin_worker: "registry_ok m \<Longrightarrow> registry_ok (stdin_worker m lines)"
  by (induction lines arbitrary: m) (auto simp: registry_ok_stdin_line)

lemma registry_ok_command_handling:
  assumes "registry_ok m" "command_handling h m rnd i reads command address = Some (h', m', i')"
  shows "registry_ok m'"
proof (cases "command = CONNECT")
  case False
  then show ?thesis using assms by (simp add: command_handling_def)
next
  case True
  obtain s m1 j where cs: "create_session m rnd i = Some (s, m1, j)"
    using assms(2) True by (auto simp: command_handling_def split: option.splits)
  have m1: "m1 = m\<lparr>sessions := (sessions m)(session_id s \<mapsto> s)\<rparr>"
    using cs by (auto simp: create_session_def ClipsSession_init_def split: option.splits)
  obtain s1 q where cl: "ClipsSession_connect s h address (mq m1) reads = (s1, q)"
    by (cases "ClipsSession_connect s h address (mq m1) reads")
  have id1: "session_id s1 = session_id s"
    using connect_loop_keeps[of "s\<lparr>handler := Some h, proxy_socket := None\<rparr>"
        "mq m1 @ [connect_frame (session_id s) address]" reads] cl
    by (simp add: ClipsSession_connect_def)
  let ?s2 = "if is_alive s1 then s1 else ClipsSession_close s1"
  have id2: "session_id ?s2 = session_id s" using id1 by (simp add: ClipsSession_close_def)
  have "m' = m1\<lparr>sessions := (sessions m1)(session_id ?s2 \<mapsto> ?s2), mq := q\<rparr>"
    using assms(2) True cs cl by (simp add: command_handling_def Let_def)
  then show ?thesis
    using assms(1) id2 unfolding m1 registry_ok_def by auto
qed

section \<open>A run through both peers\<close>

text \<open>
  The definitions run on concrete inputs. A client asks for \<open>93.184.216.34:80\<close>, sends
  \<open>GET\<close> and closes. The local peer answers the method selection and queues three frames
  (the reply to the request is left to \<open>get_response\<close>). The remote peer reads them, starts
  the worker, which reports the connect result \<open>0\<close>, sends \<open>GET\<close> to the destination and
  terminates on the close item. Back on the local peer, the connect result gives the
  SUCCEEDED reply and the next frame is handed on to the client.
\<close>

lemma create_session_first:
  "create_session \<lparr>sessions = Map.empty, mq = [], stderr = []\<rparr> (\<lambda>j. 0) 0 =
     Some (ClipsSession_init ''aaaaaaaa'',
           \<lparr>sessions = [''aaaaaaaa'' \<mapsto> ClipsSession_init ''aaaaaaaa''], mq = [], stderr = []\<rparr>,
           8)"
proof -
  have rid: "random_id (\<lambda>j. 0) 0 = ''aaaaaaaa''"
    by (simp add: random_id_def random_choice_def ID_SIZE_def ID_CHARSET_def upt_rec[of _ 8])
  show ?thesis
    unfolding create_session_def
    by (subst create_session_id.simps) (simp add: rid ID_SIZE_def)
qed

lemma scenario_local_request:
  "(let h = \<lparr>rfile = [CHR 0x05, CHR 0x01, CHR 0x00,
                       CHR 0x05, CHR 0x01, CHR 0x00, CHR 0x01,
                       CHR 0x5D, CHR 0xB8, CHR 0xD8, CHR 0x22, CHR 0x00, CHR 0x50],
             wfile = []\<rparr>;
        m = \<lparr>sessions = Map.empty, mq = [], stderr = []\<rparr>
    in case handle h m (\<lambda>j. 0) 0 [Data ''GET'', Data []] of
         Some (Inr (h', m', i')) \<Rightarrow>
           wfile h' = [CHR 0x05, CHR 0x00]
           \<and> mq m' = [''$BASE64$aaaaaaaa$$80$93.184.216.34'' @ [CHR 0x0A],
                       ''$BASE64$aaaaaaaa$R0VU'' @ [CHR 0x0A],
                       ''$BASE64$aaaaaaaa$'' @ [CHR 0x0A]]
           \<and> (case sessions m' ''aaaaaaaa'' of
                  Some s \<Rightarrow> is_alive s = False \<and> proxy_socket s = None
                | None \<Rightarrow> False)
       | _ \<Rightarrow> False)"
  by (simp add: handle_def recv_def unpack_b_def signed_byte_def Let_def
      NO_AUTHENTICATION_REQUIRED_def SOCKS_VERSION_def send_def address_handling_def IPV4_def
      inet_ntoa_def unpack_H_def command_handling_def CONNECT_def create_session_first
      ClipsSession_connect_def ClipsSession_init_def ClipsSession_close_def connect_frame_def
      data_frame_def BASE64_MARKER_def format_port_def format_field_def
      str_nat.simps[of 80] str_nat.simps[of 8] str_nat.simps[of 93] str_nat.simps[of 9]
      str_nat.simps[of 184] str_nat.simps[of 18] str_nat.simps[of 1] str_nat.simps[of "Suc 0"] str_nat.simps[of 216]
      str_nat.simps[of 21] str_nat.simps[of 2] str_nat.simps[of 34] str_nat.simps[of 3]
      digit_char_def table_b2a_def b64_alphabet_def char_of_eq_iff)

lemma scenario_remote:
  "(let st = \<lparr>proxy_sessions = Map.empty, workers = [], wconn = [], proxy_stderr = []\<rparr>
    in case SOCKSHandler_read st [''$BASE64$aaaaaaaa$$80$93.184.216.34'' @ [CHR 0x0A],
                                  ''$BASE64$aaaaaaaa$R0VU'' @ [CHR 0x0A],
                                  ''$BASE64$aaaaaaaa$'' @ [CHR 0x0A]] of
         (r, st', rest) \<Rightarrow>
           r = None \<and> workers st' = [''aaaaaaaa'']
           \<and> proxy_sessions st' ''aaaaaaaa'' = Some (''93.184.216.34'', 80, [''GET'', []])
           \<and> (case SOCKSHandler_worker st' ''aaaaaaaa'' 0 [None] of
                  Inr (st'', alive, sock) \<Rightarrow>
                    alive = False \<and> sock = ''GET''
                    \<and> wconn st'' = [''$BASE64$aaaaaaaa$MA=='' @ [CHR 0x0A]]
                | Inl e \<Rightarrow> False))"
  by (simp add: read_line_def Let_def log_text_def BASE64_MARKER_def strip_def isspace_def
      int_of_str_def parse_digits_def isdigit_def digits_value_def spawn_worker_def
      b64decode_def table_a2b_def b64_alphabet_def b64_valid_def char_of_eq_iff
      SOCKSHandler_worker_def SOCKSHandler_send_def worker_iter_def data_frame_def
      str_int_def str_nat.simps[of 0] digit_char_def table_b2a_def)

lemma scenario_local_response:
  "(let s = \<lparr>session_id = ''aaaaaaaa'', is_alive = True,
               handler = Some \<lparr>rfile = [], wfile = [CHR 0x05, CHR 0x00]\<rparr>, proxy_socket = None\<rparr>;
        m = \<lparr>sessions = [''aaaaaaaa'' \<mapsto> s], mq = [], stderr = []\<rparr>
    in case sessions (stdin_worker m [''$BASE64$aaaaaaaa$MA=='' @ [CHR 0x0A],
                                      ''$BASE64$aaaaaaaa$SFRUUA=='' @ [CHR 0x0A]]) ''aaaaaaaa'' of
         Some s' \<Rightarrow>
           is_alive s' \<and> proxy_socket s' = Some 0
           \<and> (case handler s' of
                  Some h \<Rightarrow> wfile h = [CHR 0x05, CHR 0x00] @ response SUCCEEDED @ ''HTTP''
                | None \<Rightarrow> False)
       | None \<Rightarrow> False)"
  by (simp add: stdin_line_def Let_def strip_def isspace_def BASE64_MARKER_def b64decode_def
      table_a2b_def b64_alphabet_def b64_valid_def char_of_eq_iff get_session_def
      get_response_def decode_ascii_def int_of_unicode_def isspace_unicode_def int_of_str_def
      parse_digits_def isdigit_def digits_value_def send_response_def send_def
      connection_sendall_def)

section \<open>Round trip of the frames\<close>

text \<open>
  Claim C1, amended. Base64 decoding undoes base64 encoding for every payload. For every
  session identifier without \<open>$\<close> and without a newline (every identifier the registry
  generates is one), the DATA frame \<open>$BASE64$<id>$<base64(payload)>\<close> is read back as one
  line; the reading loop of the remote peer appends exactly the payload to the inbound queue
  of the session with that identifier, and the reader of the local peer hands exactly the
  payload to \<open>get_response\<close> of the session with that identifier. For every such identifier,
  every port and every host without \<open>$\<close>, without a newline and without whitespace at
  either end, the CONNECT frame \<open>$BASE64$<id>$$<port>$<host>\<close> is read back as one line and
  the remote peer registers the session under that identifier with exactly that host and
  port, and starts its worker.
\<close>

theorem frame_roundtrip:
  "b64decode (b64encode payload) = Inr payload
   \<and> (CHR ''$'' \<notin> set sid \<longrightarrow> CHR 0x0A \<notin> set sid \<longrightarrow>
        readline (data_frame sid payload @ rest) = (data_frame sid payload, rest)
      \<and> (proxy_sessions st sid = Some (a, p, q) \<longrightarrow>
           read_line st (data_frame sid payload) =
             (None, st\<lparr>proxy_sessions := (proxy_sessions st)(sid \<mapsto> (a, p, q @ [payload])),
                       proxy_stderr := proxy_stderr st @
                         [Text ('':'' @ strip (data_frame sid payload) @ [CHR 0x0A])]\<rparr>))
      \<and> (sessions m sid = Some s \<longrightarrow>
           stdin_line m (data_frame sid payload) =
             (case get_response s payload of
                Inl e \<Rightarrow> m\<lparr>stderr := stderr m @ [Traceback e]\<rparr>
              | Inr s' \<Rightarrow> m\<lparr>sessions := (sessions m)(sid \<mapsto> s')\<rparr>))
      \<and> (clean_host host \<longrightarrow>
           readline (connect_frame sid (Some host, Some port) @ rest) =
             (connect_frame sid (Some host, Some port), rest)
         \<and> read_line st (connect_frame sid (Some host, Some port)) =
             (None, spawn_worker
                      (log_text st ('':'' @ strip (connect_frame sid (Some host, Some port)) @
                                    [CHR 0x0A]))
                      sid host (int port))
         \<and> proxy_sessions (snd (read_line st (connect_frame sid (Some host, Some port)))) sid =
             Some (host, int port, [])))"
proof -
  have 1: "b64decode (b64encode payload) = Inr payload" by (rule b64decode_b64encode)
  {
    assume d: "CHR ''$'' \<notin> set sid" and n: "CHR 0x0A \<notin> set sid"
    have 2: "readline (data_frame sid payload @ rest) = (data_frame sid payload, rest)"
      by (rule readline_data_frame[OF n])
    have 3: "read_line st (data_frame sid payload) =
             (None, st\<lparr>proxy_sessions := (proxy_sessions st)(sid \<mapsto> (a, p, q @ [payload])),
                       proxy_stderr := proxy_stderr st @
                         [Text ('':'' @ strip (data_frame sid payload) @ [CHR 0x0A])]\<rparr>)"
      if "proxy_sessions st sid = Some (a, p, q)"
      by (rule read_line_data_frame[OF d that])
    have 4: "stdin_line m (data_frame sid payload) =
             (case get_response s payload of
                Inl e \<Rightarrow> m\<lparr>stderr := stderr m @ [Traceback e]\<rparr>
              | Inr s' \<Rightarrow> m\<lparr>sessions := (sessions m)(sid \<mapsto> s')\<rparr>)"
      if "sessions m sid = Some s"
      using stdin_line_data_frame[OF d, of m payload] that by (simp add: get_session_def)
    have 5: "readline (connect_frame sid (Some host, Some port) @ rest) =
             (connect_frame sid (Some host, Some port), rest)
         \<and> read_line st (connect_frame sid (Some host, Some port)) =
             (None, spawn_worker
                      (log_text st ('':'' @ strip (connect_frame sid (Some host, Some port)) @
                                    [CHR 0x0A]))
                      sid host (int port))
         \<and> proxy_sessions (snd (read_line st (connect_frame sid (Some host, Some port)))) sid =
             Some (host, int port, [])"
      if c: "clean_host host"
    proof -
      from c have c1: "CHR ''$'' \<notin> set host" and c2: "CHR 0x0A \<notin> set host"
        and c3: "host = [] \<or> (\<not> isspace (hd host) \<and> \<not> isspace (last host))"
        by (simp_all add: clean_host_def)
      note r = read_line_connect_frame[OF d c1 c3, of st port]
      show ?thesis
        using readline_connect_frame[OF n c2, of port rest] r
        by (simp add: spawn_worker_def log_text_def)
    qed
    note 2 3 4 5
  }
  then show ?thesis using 1 by blast
qed

theorem frame_roundtrip_witness:
  "(let sid = ''aaaaaaaa''; payload = [CHR 0x00, CHR 0xFF, CHR ''$'', CHR 0x0A];
        st = \<lparr>proxy_sessions = [sid \<mapsto> (''example.com'', 80, [])],
              workers = [sid], wconn = [], proxy_stderr = []\<rparr>;
        s = \<lparr>session_id = sid, is_alive = True,
               handler = Some \<lparr>rfile = [], wfile = []\<rparr>, proxy_socket = Some 0\<rparr>;
        m = \<lparr>sessions = [sid \<mapsto> s], mq = [], stderr = []\<rparr>
    in CHR ''$'' \<notin> set sid \<and> CHR 0x0A \<notin> set sid \<and> clean_host ''example.com''
     \<and> proxy_sessions (snd (read_line st (data_frame sid payload))) sid =
         Some (''example.com'', 80, [payload])
     \<and> stdin_line m (data_frame sid payload) =
         m\<lparr>sessions := [sid \<mapsto> s\<lparr>handler := Some \<lparr>rfile = [], wfile = payload\<rparr>\<rparr>]\<rparr>
     \<and> proxy_sessions
           (snd (read_line \<lparr>proxy_sessions = Map.empty, workers = [], wconn = [], proxy_stderr = []\<rparr>
                   (connect_frame sid (Some ''example.com'', Some 80)))) sid =
         Some (''example.com'', 80, []))"
proof -
  define sid where "sid = ''aaaaaaaa''"
  define payload where "payload = [CHR 0x00, CHR 0xFF, CHR ''$'', CHR 0x0A]"
  define st where "st = \<lparr>proxy_sessions = [sid \<mapsto> (''example.com'', 80::int, [])],
              workers = [sid], wconn = [], proxy_stderr = []\<rparr>"
  define s where "s = \<lparr>session_id = sid, is_alive = True,
               handler = Some \<lparr>rfile = [], wfile = []\<rparr>, proxy_socket = Some (0::int)\<rparr>"
  define m where "m = \<lparr>sessions = [sid \<mapsto> s], mq = [], stderr = []\<rparr>"
  define st0 where "st0 = \<lparr>proxy_sessions = Map.empty, workers = [], wconn = [], proxy_stderr = []\<rparr>"
  have h: "CHR ''$'' \<notin> set sid" "CHR 0x0A \<notin> set sid" "clean_host ''example.com''"
    by (simp_all add: sid_def clean_host_def isspace_def)
  have g: "get_response s payload = Inr (s\<lparr>handler := Some \<lparr>rfile = [], wfile = payload\<rparr>\<rparr>)"
    by (simp add: get_response_def s_def payload_def connection_sendall_def)
  have a: "proxy_sessions (snd (read_line st (data_frame sid payload))) sid =
         Some (''example.com'', 80, [payload])"
    using frame_roundtrip[of payload sid _ st "''example.com''" 80 "[]"] h
    by (simp add: st_def)
  have b: "stdin_line m (data_frame sid payload) =
         m\<lparr>sessions := [sid \<mapsto> s\<lparr>handler := Some \<lparr>rfile = [], wfile = payload\<rparr>\<rparr>]\<rparr>"
    using frame_roundtrip[of payload sid _ _ _ _ _ m s] h g
    by (simp add: m_def)
  have c: "proxy_sessions (snd (read_line st0 (connect_frame sid (Some ''example.com'', Some 80)))) sid =
         Some (''example.com'', 80, [])"
    using frame_roundtrip[of payload sid _ st0 _ _ _ _ _ "''example.com''" 80] h
    by (simp add: spawn_worker_def log_text_def)
  show ?thesis
    unfolding Let_def using h a b c
    unfolding sid_def payload_def st_def s_def m_def st0_def by simp
qed

text \<open>
  Claim C1 as stated fails for destinations that a SOCKS5 client can name (the domain name of
  a request is any byte string): with the host \<open>a$b\<close> the CONNECT frame splits into four
  fields, the remote peer logs a \<open>ValueError\<close> and registers nothing; with a host that
  starts with a blank the remote peer registers the name without the blank; and a frame whose
  host holds a newline is read as two lines.
\<close>

theorem connect_frame_counterexample:
  "(let st = \<lparr>proxy_sessions = Map.empty, workers = [], wconn = [], proxy_stderr = []\<rparr>;
        st1 = snd (read_line st (connect_frame ''aaaaaaaa'' (Some ''a$b'', Some 80)));
        st2 = snd (read_line st (connect_frame ''aaaaaaaa'' (Some '' host'', Some 80)))
    in proxy_sessions st1 ''aaaaaaaa'' = None \<and> workers st1 = []
     \<and> proxy_stderr st1 =
         [Text ('':$BASE64$aaaaaaaa$$80$a$b'' @ [CHR 0x0A]), Traceback ValueError]
     \<and> proxy_sessions st2 ''aaaaaaaa'' = Some (''host'', 80, [])
     \<and> readline (connect_frame ''aaaaaaaa'' (Some (''a'' @ [CHR 0x0A] @ ''b''), Some 80)) =
         (''$BASE64$aaaaaaaa$$80$a'' @ [CHR 0x0A], ''b'' @ [CHR 0x0A]))"
  by (simp add: connect_frame_def format_port_def format_field_def BASE64_MARKER_def
      str_nat.simps[of 80] str_nat.simps[of 8] digit_char_def char_of_eq_iff
      read_line_def Let_def log_text_def strip_def isspace_def spawn_worker_def
      int_of_str_def parse_digits_def isdigit_def digits_value_def)

section \<open>Session identifiers\<close>

text \<open>
  Claim C2. Whenever the random numbers drawn lead, at some attempt, to an identifier that is
  not a key of the registry, \<open>create_session\<close> returns: the new session is alive, its
  identifier has length 8 over the letters and digits, it was not a key of the registry, and
  the registry afterwards is the old one with the new session stored under its identifier.
  When every session of the registry is stored under its own identifier (which holds for the
  empty registry and is kept by \<open>create_session\<close>, by the request handler and by the reader
  of the ``in'' stream),
  the new identifier differs from the identifier of every session present, and no two
  sessions of the registry share an identifier afterwards. (When every attempt hits a key of
  the registry the loop never ends; see \<open>create_session_id_never_returns\<close>.)
\<close>

theorem create_session_unique:
  "(\<exists>n. sessions m (random_id rnd (i + ID_SIZE * n)) = None) \<longrightarrow>
   (\<exists>s m' i'. create_session m rnd i = Some (s, m', i')
      \<and> length (session_id s) = 8
      \<and> set (session_id s) \<subseteq>
          set (''abcdefghijklmnopqrstuvwxyz'' @ ''ABCDEFGHIJKLMNOPQRSTUVWXYZ'' @ ''0123456789'')
      \<and> is_alive s
      \<and> sessions m (session_id s) = None
      \<and> sessions m' = (sessions m)(session_id s \<mapsto> s)
      \<and> (registry_ok m \<longrightarrow>
           (\<forall>k s'. sessions m k = Some s' \<longrightarrow> session_id s' \<noteq> session_id s)
         \<and> registry_ok m'
         \<and> (\<forall>k1 k2 s1 s2. sessions m' k1 = Some s1 \<longrightarrow> sessions m' k2 = Some s2 \<longrightarrow>
               k1 \<noteq> k2 \<longrightarrow> session_id s1 \<noteq> session_id s2)))"
proof
  assume "\<exists>n. sessions m (random_id rnd (i + ID_SIZE * n)) = None"
  then obtain n where "sessions m (random_id rnd (i + ID_SIZE * n)) = None" ..
  from create_session_id_returns[of "sessions m" rnd i n, OF this] obtain k where
    k: "create_session_id rnd i (sessions m) =
          Some (random_id rnd (i + ID_SIZE * k), i + ID_SIZE * Suc k)"
       "sessions m (random_id rnd (i + ID_SIZE * k)) = None"
    by blast
  define sid where "sid = random_id rnd (i + ID_SIZE * k)"
  define s where "s = ClipsSession_init sid"
  define m' where "m' = m\<lparr>sessions := (sessions m)(sid \<mapsto> s)\<rparr>"
  have c: "create_session m rnd i = Some (s, m', i + ID_SIZE * Suc k)"
    using k(1) by (simp add: create_session_def s_def m'_def sid_def)
  have id: "session_id s = sid" "is_alive s" by (simp_all add: s_def ClipsSession_init_def)
  have l: "length sid = 8" by (simp add: sid_def random_id_length)
  have a: "set sid \<subseteq> set (''abcdefghijklmnopqrstuvwxyz'' @ ''ABCDEFGHIJKLMNOPQRSTUVWXYZ'' @ ''0123456789'')"
    using random_id_charset[of rnd "i + ID_SIZE * k"] by (simp add: sid_def ID_CHARSET_def)
  have f: "sessions m sid = None" using k(2) by (simp add: sid_def)
  have u: "(\<forall>k s'. sessions m k = Some s' \<longrightarrow> session_id s' \<noteq> sid)
         \<and> registry_ok m'
         \<and> (\<forall>k1 k2 s1 s2. sessions m' k1 = Some s1 \<longrightarrow> sessions m' k2 = Some s2 \<longrightarrow>
               k1 \<noteq> k2 \<longrightarrow> session_id s1 \<noteq> session_id s2)"
    if ok: "registry_ok m"
  proof -
    have 1: "\<forall>k s'. sessions m k = Some s' \<longrightarrow> session_id s' \<noteq> sid"
      using ok f by (auto simp: registry_ok_def)
    have 2: "registry_ok m'"
      using ok id(1) by (auto simp: registry_ok_def m'_def)
    have 3: "\<forall>k1 k2 s1 s2. sessions m' k1 = Some s1 \<longrightarrow> sessions m' k2 = Some s2 \<longrightarrow>
               k1 \<noteq> k2 \<longrightarrow> session_id s1 \<noteq> session_id s2"
      using 2 unfolding registry_ok_def by metis
    show ?thesis using 1 2 3 by blast
  qed
  show "\<exists>s m' i'. create_session m rnd i = Some (s, m', i')
      \<and> length (session_id s) = 8
      \<and> set (session_id s) \<subseteq>
          set (''abcdefghijklmnopqrstuvwxyz'' @ ''ABCDEFGHIJKLMNOPQRSTUVWXYZ'' @ ''0123456789'')
      \<and> is_alive s
      \<and> sessions m (session_id s) = None
      \<and> sessions m' = (sessions m)(session_id s \<mapsto> s)
      \<and> (registry_ok m \<longrightarrow>
           (\<forall>k s'. sessions m k = Some s' \<longrightarrow> session_id s' \<noteq> session_id s)
         \<and> registry_ok m'
         \<and> (\<forall>k1 k2 s1 s2. sessions m' k1 = Some s1 \<longrightarrow> sessions m' k2 = Some s2 \<longrightarrow>
               k1 \<noteq> k2 \<longrightarrow> session_id s1 \<noteq> session_id s2))"
    apply (rule exI[of _ s], rule exI[of _ m'], rule exI[of _ "i + ID_SIZE * Suc k"])
    using c id l a f u by (simp add: m'_def)
qed

theorem create_session_unique_witness:
  "(let s0 = ClipsSession_init ''aaaaaaaa'';
        m = \<lparr>sessions = [''aaaaaaaa'' \<mapsto> s0], mq = [], stderr = []\<rparr>;
        rnd = (\<lambda>j. if j < 8 then 0 else 1)
    in registry_ok m
     \<and> random_id rnd 0 = ''aaaaaaaa'' \<and> random_id rnd 8 = ''bbbbbbbb''
     \<and> sessions m (random_id rnd (0 + ID_SIZE * 1)) = None
     \<and> (\<exists>s m' i'. create_session m rnd 0 = Some (s, m', i')
           \<and> length (session_id s) = 8 \<and> is_alive s \<and> session_id s \<noteq> session_id s0
           \<and> registry_ok m'))"
proof -
  define s0 where "s0 = ClipsSession_init ''aaaaaaaa''"
  define m where "m = \<lparr>sessions = [''aaaaaaaa'' \<mapsto> s0], mq = [], stderr = []\<rparr>"
  define rnd where "rnd = (\<lambda>j::nat. if j < 8 then 0 else 1::nat)"
  have ok: "registry_ok m"
    by (simp add: registry_ok_def m_def s0_def ClipsSession_init_def)
  have r: "random_id rnd 0 = ''aaaaaaaa''" "random_id rnd 8 = ''bbbbbbbb''"
    by (simp_all add: random_id_def random_choice_def rnd_def ID_SIZE_def ID_CHARSET_def
        upt_rec[of _ 8] upt_rec[of _ 16])
  have h: "sessions m (random_id rnd (0 + ID_SIZE * 1)) = None"
    using r by (simp add: ID_SIZE_def m_def)
  have s0m: "sessions m ''aaaaaaaa'' = Some s0" by (simp add: m_def)
  have e: "\<exists>n. sessions m (random_id rnd (0 + ID_SIZE * n)) = None"
    using h by blast
  obtain s m' i' where c: "create_session m rnd 0 = Some (s, m', i')"
      "length (session_id s) = 8" "is_alive s"
      "\<forall>k s'. sessions m k = Some s' \<longrightarrow> session_id s' \<noteq> session_id s" "registry_ok m'"
    using create_session_unique[of m rnd 0] e ok by auto
  have "session_id s \<noteq> session_id s0" using c(4) s0m by metis
  then have "\<exists>s m' i'. create_session m rnd 0 = Some (s, m', i')
           \<and> length (session_id s) = 8 \<and> is_alive s \<and> session_id s \<noteq> session_id s0
           \<and> registry_ok m'"
    using c by blast
  then show ?thesis
    unfolding Let_def using ok r h unfolding s0_def m_def rnd_def by simp
qed

section \<open>Responses to a tunneled session\<close>

text \<open>
  Claim C3. For a tunneled session, \<open>get_response\<close> with empty data closes the session.
  While the connect outcome is not recorded, the data is read as a decimal integer in
  ASCII: for \<open>0\<close> the client gets the SUCCEEDED reply, the outcome is recorded and the
  session stays as alive as it was; for any other value the client gets the
  NETWORK_UNREACHABLE reply and the session is closed. Once the outcome \<open>0\<close> is recorded,
  non-empty data is appended unchanged to what the client connection receives. The decimal
  text \<open>str(r)\<close> that the remote peer sends is read back as \<open>r\<close>.
\<close>

theorem get_response_cases:
  fixes s :: clips_session
  shows "get_response s [] = Inr (s\<lparr>is_alive := False\<rparr>)
    \<and> (handler s = Some h \<longrightarrow> proxy_socket s = None \<longrightarrow> data \<noteq> [] \<longrightarrow>
         decode_ascii data = Inr text \<longrightarrow> int_of_unicode text = Inr r \<longrightarrow>
         get_response s data =
           (if r = 0
            then Inr (s\<lparr>handler := Some (h\<lparr>wfile := wfile h @ response SUCCEEDED\<rparr>),
                       proxy_socket := Some 0\<rparr>)
            else Inr (s\<lparr>is_alive := False,
                       handler := Some (h\<lparr>wfile := wfile h @ response NETWORK_UNREACHABLE\<rparr>),
                       proxy_socket := Some r\<rparr>)))
    \<and> (handler s = Some h \<longrightarrow> proxy_socket s = Some 0 \<longrightarrow> data \<noteq> [] \<longrightarrow>
         get_response s data = Inr (s\<lparr>handler := Some (h\<lparr>wfile := wfile h @ data\<rparr>)\<rparr>))
    \<and> decode_ascii (str_int r) = Inr (str_int r) \<and> int_of_unicode (str_int r) = Inr r"
  by (simp add: get_response_def ClipsSession_close_def send_response_def send_def
      connection_sendall_def decode_ascii_str_int int_of_unicode_str_int)

theorem get_response_cases_witness:
  "(let h = \<lparr>rfile = [], wfile = []\<rparr>;
        s = \<lparr>session_id = ''aaaaaaaa'', is_alive = True, handler = Some h, proxy_socket = None\<rparr>
    in get_response s ''0'' =
         Inr (s\<lparr>handler := Some (h\<lparr>wfile := response SUCCEEDED\<rparr>), proxy_socket := Some 0\<rparr>)
     \<and> get_response s ''111'' =
         Inr (s\<lparr>is_alive := False,
                handler := Some (h\<lparr>wfile := response NETWORK_UNREACHABLE\<rparr>),
                proxy_socket := Some 111\<rparr>)
     \<and> get_response (s\<lparr>proxy_socket := Some 0\<rparr>) ''GET'' =
         Inr (s\<lparr>handler := Some (h\<lparr>wfile := ''GET''\<rparr>), proxy_socket := Some 0\<rparr>))"
proof -
  define h where "h = \<lparr>rfile = [], wfile = []\<rparr>"
  define s where
    "s = \<lparr>session_id = ''aaaaaaaa'', is_alive = True, handler = Some h, proxy_socket = None\<rparr>"
  have p0: "decode_ascii ''0'' = Inr ''0''" "int_of_unicode ''0'' = Inr 0"
    by (simp_all add: decode_ascii_def int_of_unicode_def isspace_unicode_def int_of_str_def
        strip_def isspace_def parse_digits_def
        isdigit_def digits_value_def)
  have p1: "decode_ascii ''111'' = Inr ''111''" "int_of_unicode ''111'' = Inr 111"
    by (simp_all add: decode_ascii_def int_of_unicode_def isspace_unicode_def int_of_str_def
        strip_def isspace_def parse_digits_def
        isdigit_def digits_value_def)
  have hs: "handler s = Some h" "proxy_socket s = None" "wfile h = []"
    by (simp_all add: s_def h_def)
  have a: "get_response s ''0'' =
         Inr (s\<lparr>handler := Some (h\<lparr>wfile := response SUCCEEDED\<rparr>), proxy_socket := Some 0\<rparr>)"
    using get_response_cases[of s h "''0''" "''0''" 0] hs p0 by simp
  have b: "get_response s ''111'' =
         Inr (s\<lparr>is_alive := False,
                handler := Some (h\<lparr>wfile := response NETWORK_UNREACHABLE\<rparr>),
                proxy_socket := Some 111\<rparr>)"
    using get_response_cases[of s h "''111''" "''111''" 111] hs p1 by simp
  have c: "get_response (s\<lparr>proxy_socket := Some 0\<rparr>) ''GET'' =
         Inr (s\<lparr>handler := Some (h\<lparr>wfile := ''GET''\<rparr>), proxy_socket := Some 0\<rparr>)"
    using get_response_cases[of "s\<lparr>proxy_socket := Some 0\<rparr>" h "''GET''"] hs by simp
  show ?thesis
    unfolding Let_def using a b c unfolding s_def h_def by simp
qed

section \<open>Frames for a closed session\<close>




section \<open>The entry of a session on the remote peer when its worker terminates\<close>

text \<open>
  Claim C5 says that the entry of a session is removed from the mapping whenever its relay
  worker terminates. The worker deletes the entry only after an empty read of the socket. It
  leaves the entry in place when it terminates on an \<open>IOError\<close>, on the empty item of its
  inbound queue, or because the connection to the destination failed. The four runs below
  start from a mapping that holds the session \<open>aaaaaaaa\<close>: in the first three the worker
  has terminated and the entry is still there, in the last one (the empty read) it is gone.
\<close>

theorem worker_entry_after_termination:
  "(let st = \<lparr>proxy_sessions = [''aaaaaaaa'' \<mapsto> (''example.com'', 80, [])],
              workers = [''aaaaaaaa''], wconn = [], proxy_stderr = []\<rparr>;
        st_close_item = st\<lparr>proxy_sessions := [''aaaaaaaa'' \<mapsto> (''example.com'', 80, [[]])]\<rparr>
    in (case SOCKSHandler_worker st ''aaaaaaaa'' 0 [Some IOError] of
          Inl e \<Rightarrow> False
        | Inr (st', alive, sock) \<Rightarrow>
            alive = False \<and> proxy_sessions st' ''aaaaaaaa'' = Some (''example.com'', 80, []))
     \<and> (case SOCKSHandler_worker st_close_item ''aaaaaaaa'' 0 [None] of
          Inl e \<Rightarrow> False
        | Inr (st', alive, sock) \<Rightarrow>
            alive = False \<and> proxy_sessions st' ''aaaaaaaa'' = Some (''example.com'', 80, []))
     \<and> (case SOCKSHandler_worker st ''aaaaaaaa'' 111 [] of
          Inl e \<Rightarrow> False
        | Inr (st', alive, sock) \<Rightarrow>
            alive = False \<and> proxy_sessions st' ''aaaaaaaa'' = Some (''example.com'', 80, []))
     \<and> (case SOCKSHandler_worker st ''aaaaaaaa'' 0 [Some (Data [])] of
          Inl e \<Rightarrow> False
        | Inr (st', alive, sock) \<Rightarrow> alive = False \<and> proxy_sessions st' ''aaaaaaaa'' = None))"
  by (simp add: SOCKSHandler_worker_def Let_def worker_iter_def SOCKSHandler_send_def log_text_def)

section \<open>Malformed frames\<close>

text \<open>
  Claim C6. For a line that is a frame (it starts with the marker; the local reader strips
  the line first), on either peer:

  \<^item> if \<open>b64decode\<close> rejects the payload, or the session identifier is not a key of the
    registry (local peer) or of the mapping (remote peer, for a DATA frame), the line only
    adds a traceback to the log and nothing else in the state changes;
  \<^item> if the payload decodes and the identifier is known, the frame is applied: the decoded
    bytes go to \<open>get_response\<close> of the session (an error it raises is logged), or to the
    inbound queue of the session on the remote peer;
  \<^item> in every case no error leaves the loop body and the loop goes on with the lines that
    follow;
  \<^item> the decoder skips the characters outside its table, so a payload is rejected only for
    its padding, never for such characters.
\<close>

theorem malformed_frames_not_fatal:
  "(strip line = BASE64_MARKER @ rest \<longrightarrow> str_partition ''$'' rest = (sid, sep, payload) \<longrightarrow>
      ((b64decode payload = Inl e \<or> sessions m sid = None) \<longrightarrow>
         stdin_line m line =
           m\<lparr>stderr := stderr m @
               [Traceback (case b64decode payload of Inl e' \<Rightarrow> e' | Inr d' \<Rightarrow> KeyError)]\<rparr>)
      \<and> (b64decode payload = Inr d \<longrightarrow> sessions m sid = Some s \<longrightarrow>
         stdin_line m line =
           (case get_response s d of
              Inl e' \<Rightarrow> m\<lparr>stderr := stderr m @ [Traceback e']\<rparr>
            | Inr s' \<Rightarrow> m\<lparr>sessions := (sessions m)(sid \<mapsto> s')\<rparr>))
      \<and> stdin_worker m (line # lines) = stdin_worker (stdin_line m line) lines)
   \<and> (line = BASE64_MARKER @ rest \<longrightarrow> str_partition ''$'' rest = (sid, sep, payload) \<longrightarrow>
      (\<not> str_contains ''$'' (take 1 payload) \<longrightarrow>
         ((b64decode payload = Inl e \<or> proxy_sessions st sid = None) \<longrightarrow>
            read_line st line =
              (None, st\<lparr>proxy_stderr := proxy_stderr st @
                 [Text ('':'' @ strip line @ [CHR 0x0A]),
                  Traceback (case b64decode payload of Inl e' \<Rightarrow> e' | Inr d' \<Rightarrow> KeyError)]\<rparr>))
         \<and> (b64decode payload = Inr d \<longrightarrow> proxy_sessions st sid = Some (a, p, q) \<longrightarrow>
            read_line st line =
              (None, st\<lparr>proxy_stderr := proxy_stderr st @ [Text ('':'' @ strip line @ [CHR 0x0A])],
                        proxy_sessions := (proxy_sessions st)(sid \<mapsto> (a, p, q @ [d]))\<rparr>)))
      \<and> SOCKSHandler_read st (line # lines) = SOCKSHandler_read (snd (read_line st line)) lines)
   \<and> b64decode payload = b64decode (filter b64_valid payload)"
proof -
  have a: "stdin_worker m (line # lines) = stdin_worker (stdin_line m line) lines"
    if "strip line = BASE64_MARKER @ rest"
  proof -
    have "line \<noteq> []" using that strip_Nil by (auto simp: BASE64_MARKER_def)
    then show ?thesis by simp
  qed
  have b: "SOCKSHandler_read st (line # lines) = SOCKSHandler_read (snd (read_line st line)) lines"
    if "line = BASE64_MARKER @ rest"
    unfolding that by (rule SOCKSHandler_read_frame)
  show ?thesis
    using stdin_line_malformed[of line rest sid sep payload e m]
      read_line_malformed[of line rest sid sep payload e st]
      stdin_line_applied[of line rest sid sep payload d m s]
      read_line_applied[of line rest sid sep payload d st a p q]
      a b b64decode_filter[of payload]
    by (auto simp del: str_contains.simps SOCKSHandler_read.simps stdin_worker.simps)
qed

theorem malformed_frames_not_fatal_witness:
  "(let s = \<lparr>session_id = ''aaaaaaaa'', is_alive = True,
               handler = Some \<lparr>rfile = [], wfile = []\<rparr>, proxy_socket = Some 0\<rparr>;
        m = \<lparr>sessions = [''aaaaaaaa'' \<mapsto> s], mq = [], stderr = []\<rparr>;
        st = \<lparr>proxy_sessions = [''aaaaaaaa'' \<mapsto> (''example.com'', 80, [])],
              workers = [''aaaaaaaa''], wconn = [], proxy_stderr = []\<rparr>;
        bad_payload = ''$BASE64$aaaaaaaa$QQ'' @ [CHR 0x0A];
        bad_id = ''$BASE64$zzzzzzzz$QQ=='' @ [CHR 0x0A];
        good = ''$BASE64$aaaaaaaa$QUJD'' @ [CHR 0x0A]
    in stdin_line m bad_payload = m\<lparr>stderr := [Traceback TypeError]\<rparr>
     \<and> stdin_worker m [bad_payload, bad_id] = stdin_worker (stdin_line m bad_payload) [bad_id]
     \<and> stdin_line m bad_id = m\<lparr>stderr := [Traceback KeyError]\<rparr>
     \<and> stdin_line m good =
         m\<lparr>sessions := [''aaaaaaaa'' \<mapsto> s\<lparr>handler := Some \<lparr>rfile = [], wfile = ''ABC''\<rparr>\<rparr>]\<rparr>
     \<and> read_line st bad_payload =
         (None, st\<lparr>proxy_stderr := [Text ('':'' @ strip bad_payload @ [CHR 0x0A]),
                                       Traceback TypeError]\<rparr>)
     \<and> read_line st bad_id =
         (None, st\<lparr>proxy_stderr := [Text ('':'' @ strip bad_id @ [CHR 0x0A]),
                                       Traceback KeyError]\<rparr>)
     \<and> read_line st good =
         (None, st\<lparr>proxy_stderr := [Text ('':'' @ strip good @ [CHR 0x0A])],
                   proxy_sessions := [''aaaaaaaa'' \<mapsto> (''example.com'', 80, [''ABC''])]\<rparr>)
     \<and> SOCKSHandler_read st [bad_id, ''x''] = SOCKSHandler_read (snd (read_line st bad_id)) [''x'']
     \<and> b64decode ''Q!U*J#D'' = b64decode ''QUJD'')"
proof -
  define s where "s = \<lparr>session_id = ''aaaaaaaa'', is_alive = True,
               handler = Some \<lparr>rfile = [], wfile = []\<rparr>, proxy_socket = Some (0::int)\<rparr>"
  define m where "m = \<lparr>sessions = [''aaaaaaaa'' \<mapsto> s], mq = [], stderr = []\<rparr>"
  define st where "st = \<lparr>proxy_sessions = [''aaaaaaaa'' \<mapsto> (''example.com'', 80::int, [])],
              workers = [''aaaaaaaa''], wconn = [], proxy_stderr = []\<rparr>"
  define bad_payload where "bad_payload = ''$BASE64$aaaaaaaa$QQ'' @ [CHR 0x0A]"
  define bad_id where "bad_id = ''$BASE64$zzzzzzzz$QQ=='' @ [CHR 0x0A]"
  define good where "good = ''$BASE64$aaaaaaaa$QUJD'' @ [CHR 0x0A]"
  have s1: "strip bad_payload = BASE64_MARKER @ ''aaaaaaaa$QQ''"
    "strip bad_id = BASE64_MARKER @ ''zzzzzzzz$QQ==''"
    "strip good = BASE64_MARKER @ ''aaaaaaaa$QUJD''"
    by (simp_all add: bad_payload_def bad_id_def good_def strip_def isspace_def BASE64_MARKER_def)
  have l1: "bad_payload = BASE64_MARKER @ ''aaaaaaaa$QQ'' @ [CHR 0x0A]"
    "bad_id = BASE64_MARKER @ ''zzzzzzzz$QQ=='' @ [CHR 0x0A]"
    "good = BASE64_MARKER @ ''aaaaaaaa$QUJD'' @ [CHR 0x0A]"
    by (simp_all add: bad_payload_def bad_id_def good_def BASE64_MARKER_def)
  have p1: "str_partition ''$'' ''aaaaaaaa$QQ'' = (''aaaaaaaa'', ''$'', ''QQ'')"
    "str_partition ''$'' ''zzzzzzzz$QQ=='' = (''zzzzzzzz'', ''$'', ''QQ=='')"
    "str_partition ''$'' ''aaaaaaaa$QUJD'' = (''aaaaaaaa'', ''$'', ''QUJD'')"
    "str_partition ''$'' (''aaaaaaaa$QQ'' @ [CHR 0x0A]) = (''aaaaaaaa'', ''$'', ''QQ'' @ [CHR 0x0A])"
    "str_partition ''$'' (''zzzzzzzz$QQ=='' @ [CHR 0x0A]) = (''zzzzzzzz'', ''$'', ''QQ=='' @ [CHR 0x0A])"
    "str_partition ''$'' (''aaaaaaaa$QUJD'' @ [CHR 0x0A]) = (''aaaaaaaa'', ''$'', ''QUJD'' @ [CHR 0x0A])"
    by simp_all
  have d1: "b64decode ''QQ'' = Inl TypeError" "b64decode (''QQ'' @ [CHR 0x0A]) = Inl TypeError"
    "b64decode ''QQ=='' = Inr ''A''" "b64decode (''QQ=='' @ [CHR 0x0A]) = Inr ''A''"
    "b64decode ''QUJD'' = Inr ''ABC''" "b64decode (''QUJD'' @ [CHR 0x0A]) = Inr ''ABC''"
    by (simp_all add: b64decode_def table_a2b_def b64_alphabet_def b64_valid_def char_of_eq_iff)
  have n1: "sessions m ''zzzzzzzz'' = None" "proxy_sessions st ''zzzzzzzz'' = None"
    "sessions m ''aaaaaaaa'' = Some s"
    "proxy_sessions st ''aaaaaaaa'' = Some (''example.com'', 80, [])"
    by (simp_all add: m_def st_def)
  have g1: "get_response s ''ABC'' = Inr (s\<lparr>handler := Some \<lparr>rfile = [], wfile = ''ABC''\<rparr>\<rparr>)"
    by (simp add: s_def get_response_def connection_sendall_def)
  have f1: "filter b64_valid ''Q!U*J#D'' = ''QUJD''"
    by (simp add: b64_valid_def table_a2b_def b64_alphabet_def)
  note t = malformed_frames_not_fatal
  have a: "stdin_line m bad_payload = m\<lparr>stderr := [Traceback TypeError]\<rparr>
     \<and> stdin_worker m [bad_payload, bad_id] = stdin_worker (stdin_line m bad_payload) [bad_id]"
    using t[where line = bad_payload and rest = "''aaaaaaaa$QQ''" and sid = "''aaaaaaaa''"
        and sep = "''$''" and payload = "''QQ''" and e = TypeError and m = m and lines = "[bad_id]"]
      s1 p1 d1 by (simp add: m_def)
  have b: "stdin_line m bad_id = m\<lparr>stderr := [Traceback KeyError]\<rparr>"
    using t[where line = bad_id and rest = "''zzzzzzzz$QQ==''" and sid = "''zzzzzzzz''"
        and sep = "''$''" and payload = "''QQ==''" and m = m]
      s1 p1 d1 n1 by (simp add: m_def)
  have c: "read_line st bad_payload =
         (None, st\<lparr>proxy_stderr := [Text ('':'' @ strip bad_payload @ [CHR 0x0A]),
                                       Traceback TypeError]\<rparr>)"
    using t[where line = bad_payload and rest = "''aaaaaaaa$QQ'' @ [CHR 0x0A]"
        and sid = "''aaaaaaaa''" and sep = "''$''" and payload = "''QQ'' @ [CHR 0x0A]"
        and e = TypeError and st = st]
      l1 p1 d1 by (simp add: st_def)
  have d: "read_line st bad_id =
         (None, st\<lparr>proxy_stderr := [Text ('':'' @ strip bad_id @ [CHR 0x0A]),
                                       Traceback KeyError]\<rparr>)
     \<and> SOCKSHandler_read st [bad_id, ''x''] = SOCKSHandler_read (snd (read_line st bad_id)) [''x'']"
    using t[where line = bad_id and rest = "''zzzzzzzz$QQ=='' @ [CHR 0x0A]"
        and sid = "''zzzzzzzz''" and sep = "''$''" and payload = "''QQ=='' @ [CHR 0x0A]"
        and st = st and lines = "[''x'']"]
      l1 p1 d1 n1 by (simp add: st_def)
  have e: "stdin_line m good =
         m\<lparr>sessions := [''aaaaaaaa'' \<mapsto> s\<lparr>handler := Some \<lparr>rfile = [], wfile = ''ABC''\<rparr>\<rparr>]\<rparr>"
    using t[where line = good and rest = "''aaaaaaaa$QUJD''" and sid = "''aaaaaaaa''"
        and sep = "''$''" and payload = "''QUJD''" and d = "''ABC''" and m = m and s = s]
      s1 p1 d1 n1 g1 by (simp add: m_def)
  have f: "read_line st good =
         (None, st\<lparr>proxy_stderr := [Text ('':'' @ strip good @ [CHR 0x0A])],
                   proxy_sessions := [''aaaaaaaa'' \<mapsto> (''example.com'', 80, [''ABC''])]\<rparr>)"
    using t[where line = good and rest = "''aaaaaaaa$QUJD'' @ [CHR 0x0A]"
        and sid = "''aaaaaaaa''" and sep = "''$''" and payload = "''QUJD'' @ [CHR 0x0A]"
        and d = "''ABC''" and st = st and a = "''example.com''" and p = 80 and q = "[]"]
      l1 p1 d1 n1 by (simp add: st_def)
  have g: "b64decode ''Q!U*J#D'' = b64decode ''QUJD''"
    using t[where payload = "''Q!U*J#D''"] f1 by simp
  show ?thesis
    unfolding Let_def using a b c d e f g
    unfolding s_def m_def st_def bad_payload_def bad_id_def good_def by simp
qed

text \<open>
  The claim as the specification words it, with ``not valid base64'' read as any payload that
  is not the base64 text of some bytes, does not hold. The payload \<open>!!!\<close> decodes to the
  empty string: the local reader closes the live session and logs nothing, and the remote
  reader queues the close item for the worker. The payload \<open>Q!U*J#D\<close> decodes to
  \<open>ABC\<close>, which is written to the client, or queued for the destination.
\<close>

theorem lenient_payload_counterexample:
  "(let s = \<lparr>session_id = ''aaaaaaaa'', is_alive = True,
               handler = Some \<lparr>rfile = [], wfile = []\<rparr>, proxy_socket = Some 0\<rparr>;
        m = \<lparr>sessions = [''aaaaaaaa'' \<mapsto> s], mq = [], stderr = []\<rparr>;
        st = \<lparr>proxy_sessions = [''aaaaaaaa'' \<mapsto> (''example.com'', 80, [])],
              workers = [''aaaaaaaa''], wconn = [], proxy_stderr = []\<rparr>;
        junk = ''$BASE64$aaaaaaaa$!!!'' @ [CHR 0x0A];
        mixed = ''$BASE64$aaaaaaaa$Q!U*J#D'' @ [CHR 0x0A]
    in b64decode ''!!!'' = Inr []
     \<and> b64decode ''Q!U*J#D'' = Inr ''ABC''
     \<and> stdin_line m junk = m\<lparr>sessions := [''aaaaaaaa'' \<mapsto> s\<lparr>is_alive := False\<rparr>]\<rparr>
     \<and> stderr (stdin_line m junk) = []
     \<and> stdin_line m mixed =
         m\<lparr>sessions := [''aaaaaaaa'' \<mapsto> s\<lparr>handler := Some \<lparr>rfile = [], wfile = ''ABC''\<rparr>\<rparr>]\<rparr>
     \<and> read_line st junk =
         (None, st\<lparr>proxy_stderr := [Text ('':$BASE64$aaaaaaaa$!!!'' @ [CHR 0x0A])],
                   proxy_sessions := [''aaaaaaaa'' \<mapsto> (''example.com'', 80, [[]])]\<rparr>)
     \<and> read_line st mixed =
         (None, st\<lparr>proxy_stderr := [Text ('':$BASE64$aaaaaaaa$Q!U*J#D'' @ [CHR 0x0A])],
                   proxy_sessions := [''aaaaaaaa'' \<mapsto> (''example.com'', 80, [''ABC''])]\<rparr>))"
proof -
  have ch: "char_of (65::nat) = CHR ''A''" "char_of (66::nat) = CHR ''B''"
    "char_of (67::nat) = CHR ''C''"
    by (simp_all add: char_of_eq_iff)
  show ?thesis
    by (simp add: stdin_line_def read_line_def log_text_def Let_def strip_def isspace_def
        BASE64_MARKER_def b64decode_def table_a2b_def b64_alphabet_def get_session_def
        get_response_def ClipsSession_close_def connection_sendall_def ch)
qed

section \<open>Connect results of a direct session\<close>

text \<open>
  Claim C7. \<open>Session.connect\<close> maps the result of \<open>connect_ex\<close> to a reply: for \<open>0\<close>
  the client gets the SUCCEEDED reply and the relay loop runs after it (everything else the
  client receives follows that reply); for the timeout-class result, which the source writes
  as \<open>60\<close>, the TTL_EXPIRED reply; for the network-unreachable-class result, written as
  \<open>61\<close>, the NETWORK_UNREACHABLE reply; and for any other non-zero result the
  NETWORK_UNREACHABLE reply as well. In the failure cases nothing is relayed and the session
  is left as it was.
\<close>

theorem Session_connect_replies:
  "(result = 0 \<longrightarrow>
      Session_connect s h address result selects out =
        relay_loop (s, h\<lparr>wfile := wfile h @ response SUCCEEDED\<rparr>, [],
                    out @ [connect_line s address]) selects
      \<and> (\<exists>rest. wfile (fst (snd (Session_connect s h address result selects out))) =
                   wfile h @ response SUCCEEDED @ rest))
   \<and> (result = 60 \<longrightarrow>
      Session_connect s h address result selects out =
        (s, h\<lparr>wfile := wfile h @ response TTL_EXPIRED\<rparr>, [], out @ [connect_line s address]))
   \<and> (result = 61 \<longrightarrow>
      Session_connect s h address result selects out =
        (s, h\<lparr>wfile := wfile h @ response NETWORK_UNREACHABLE\<rparr>, [],
         out @ [connect_line s address]))
   \<and> (result \<noteq> 0 \<longrightarrow> result \<noteq> 60 \<longrightarrow>
      Session_connect s h address result selects out =
        (s, h\<lparr>wfile := wfile h @ response NETWORK_UNREACHABLE\<rparr>, [],
         out @ [connect_line s address]))"
proof -
  have "\<exists>rest. wfile (fst (snd (relay_loop (s, send_response h SUCCEEDED, [], out') selects))) =
                   wfile h @ response SUCCEEDED @ rest" for out'
    using relay_loop_wfile[of s "send_response h SUCCEEDED" "[]" out' selects]
    by (simp add: send_response_def send_def)
  then show ?thesis
    by (simp add: Session_connect_def Let_def send_response_def send_def)
qed

theorem Session_connect_replies_witness:
  "(let s = Session_init ''aaaaaaaa''; h = \<lparr>rfile = [], wfile = []\<rparr>;
        address = (''example.com'', 80)
    in (case Session_connect s h address 0
               [[(Connection, Data ''GET'', False)], [(ProxySocket, Data ''OK'', False)],
                [(ProxySocket, Data [], False)]] [] of
          (s', h', dest, out) \<Rightarrow>
            wfile h' = response SUCCEEDED @ ''OK'' \<and> dest = ''GET'' \<and> is_alive s' = False)
     \<and> Session_connect s h address 60 [] [] =
          (s, h\<lparr>wfile := response TTL_EXPIRED\<rparr>, [], [connect_line s address])
     \<and> Session_connect s h address 61 [] [] =
          (s, h\<lparr>wfile := response NETWORK_UNREACHABLE\<rparr>, [], [connect_line s address])
     \<and> Session_connect s h address 111 [] [] =
          (s, h\<lparr>wfile := response NETWORK_UNREACHABLE\<rparr>, [], [connect_line s address])
     \<and> response TTL_EXPIRED =
          [CHR 0x05, CHR 0x06, CHR 0x00, CHR 0x01, CHR 0x00, CHR 0x00, CHR 0x00, CHR 0x00,
           CHR 0x00, CHR 0x00]
     \<and> response NETWORK_UNREACHABLE =
          [CHR 0x05, CHR 0x03, CHR 0x00, CHR 0x01, CHR 0x00, CHR 0x00, CHR 0x00, CHR 0x00,
           CHR 0x00, CHR 0x00])"
proof -
  define s where "s = Session_init ''aaaaaaaa''"
  define h where "h = \<lparr>rfile = [], wfile = []\<rparr>"
  define address where "address = (''example.com'', 80::nat)"
  note t = Session_connect_replies[of _ s h address]
  have a: "Session_connect s h address 0
               [[(Connection, Data ''GET'', False)], [(ProxySocket, Data ''OK'', False)],
                [(ProxySocket, Data [], False)]] [] =
           (s\<lparr>is_alive := False\<rparr>, h\<lparr>wfile := response SUCCEEDED @ ''OK''\<rparr>, ''GET'',
            [connect_line s address, ''[ID:aaaaaaaa] SESSION CLOSE'' @ [CHR 0x0A]])"
    using t[of 0] by (simp add: s_def h_def Session_init_def Session_close_def connection_sendall_def)
  have b: "Session_connect s h address 60 [] [] =
          (s, h\<lparr>wfile := response TTL_EXPIRED\<rparr>, [], [connect_line s address])"
    using t[of 60] by (simp add: h_def)
  have c: "Session_connect s h address 61 [] [] =
          (s, h\<lparr>wfile := response NETWORK_UNREACHABLE\<rparr>, [], [connect_line s address])"
    using t[of 61] by (simp add: h_def)
  have d: "Session_connect s h address 111 [] [] =
          (s, h\<lparr>wfile := response NETWORK_UNREACHABLE\<rparr>, [], [connect_line s address])"
    using t[of 111] by (simp add: h_def)
  have e: "response TTL_EXPIRED =
          [CHR 0x05, CHR 0x06, CHR 0x00, CHR 0x01, CHR 0x00, CHR 0x00, CHR 0x00, CHR 0x00,
           CHR 0x00, CHR 0x00]"
     "response NETWORK_UNREACHABLE =
          [CHR 0x05, CHR 0x03, CHR 0x00, CHR 0x01, CHR 0x00, CHR 0x00, CHR 0x00, CHR 0x00,
           CHR 0x00, CHR 0x00]"
    by (simp_all add: response_bytes TTL_EXPIRED_def NETWORK_UNREACHABLE_def char_of_eq_iff)
  show ?thesis
    unfolding Let_def using a b c d e unfolding s_def h_def address_def by simp
qed

section \<open>Lines that are not frames\<close>

text \<open>
  Claim C8, amended. On the remote peer, \<open>SOCKSHandler.read\<close> returns every non-empty line
  that does not contain the marker \<open>$BASE64$\<close> unchanged to its caller; it only logs the
  line and leaves the session mapping as it was. On the local peer, the reader of the ``in''
  stream does not hand such a line to any session: the line is dropped and the state of the
  manager does not change, and the reader goes on with the next line.
\<close>

theorem non_frame_lines:
  "\<not> str_contains BASE64_MARKER line \<longrightarrow>
     (line \<noteq> [] \<longrightarrow>
        read_line st line =
          (Some line, st\<lparr>proxy_stderr := proxy_stderr st @ [Text ('':'' @ strip line @ [CHR 0x0A])]\<rparr>)
        \<and> SOCKSHandler_read st (line # lines) =
          (Some line, st\<lparr>proxy_stderr := proxy_stderr st @ [Text ('':'' @ strip line @ [CHR 0x0A])]\<rparr>,
           lines))
     \<and> stdin_line m line = m
     \<and> (line \<noteq> [] \<longrightarrow> stdin_worker m (line # lines) = stdin_worker m lines)"
  using read_line_no_marker[of line st] stdin_line_no_marker[of line m] by simp

theorem non_frame_lines_witness:
  "(let st = \<lparr>proxy_sessions = Map.empty, workers = [], wconn = [], proxy_stderr = []\<rparr>;
        m = \<lparr>sessions = Map.empty, mq = [], stderr = []\<rparr>;
        line = ''ls -l $HOME'' @ [CHR 0x0A]
    in \<not> str_contains BASE64_MARKER line \<and> line \<noteq> []
     \<and> SOCKSHandler_read st [line, ''next''] =
         (Some line, st\<lparr>proxy_stderr := [Text ('':'' @ strip line @ [CHR 0x0A])]\<rparr>, [''next''])
     \<and> stdin_line m line = m)"
proof -
  define st where "st = \<lparr>proxy_sessions = Map.empty, workers = [], wconn = [], proxy_stderr = []\<rparr>"
  define m where "m = \<lparr>sessions = Map.empty, mq = [], stderr = []\<rparr>"
  define line where "line = ''ls -l $HOME'' @ [CHR 0x0A]"
  have h: "\<not> str_contains BASE64_MARKER line" "line \<noteq> []"
    by (simp_all add: line_def BASE64_MARKER_def)
  have "SOCKSHandler_read st [line, ''next''] =
         (Some line, st\<lparr>proxy_stderr := [Text ('':'' @ strip line @ [CHR 0x0A])]\<rparr>, [''next''])
     \<and> stdin_line m line = m"
    using non_frame_lines[of line st "[''next'']" m] h by (simp add: st_def)
  then show ?thesis
    unfolding Let_def using h unfolding st_def m_def line_def by simp
qed

text \<open>
  Claim C8 as stated fails for the empty string, which \<open>readline()\<close> returns at the end of
  the stream and which does not contain the marker: \<open>read\<close> does not return it but treats
  it as a DATA frame for the session with the empty identifier, logs the \<open>KeyError\<close> and
  reads again. And the reader of the local peer has no caller to pass a line to: a line without
  the marker leaves no trace in its result.
\<close>

theorem non_frame_lines_counterexample:
  "(let st = \<lparr>proxy_sessions = Map.empty, workers = [], wconn = [], proxy_stderr = []\<rparr>;
        m = \<lparr>sessions = Map.empty, mq = [], stderr = []\<rparr>
    in str_contains BASE64_MARKER [] = False
     \<and> read_line st [] =
         (None, st\<lparr>proxy_stderr := [Text ('':'' @ [CHR 0x0A]), Traceback KeyError]\<rparr>)
     \<and> fst (SOCKSHandler_read st [[], [], []]) = None
     \<and> str_contains BASE64_MARKER (''ls -l'' @ [CHR 0x0A]) = False
     \<and> stdin_worker m [''ls -l'' @ [CHR 0x0A]] = m)"
  by (simp add: BASE64_MARKER_def read_line_def Let_def log_text_def strip_def b64decode_def
      stdin_line_def isspace_def)

section \<open>The close signal when the client stops\<close>

text \<open>
  Claim C9. When the read of the client socket returns the empty string, the loop of
  \<open>ClipsSession.connect\<close> puts the DATA frame with the empty payload, \<open>$BASE64$<id>$\<close> and a
  newline, on the shared outbound queue and closes the session, whatever is read later.
  On the remote peer the reading loop decodes that frame to the empty string and appends it to
  the inbound queue of the session. A worker whose queue holds the empty item after items that
  are not empty terminates in the round in which it drains the queue, whatever the socket does
  in that round and whatever would come after it.
\<close>

theorem client_eof_close_signal:
  fixes s :: clips_session
  shows "(is_alive s \<longrightarrow>
            connect_loop s q (Data [] # reads) =
              (s\<lparr>is_alive := False\<rparr>, q @ [''$BASE64$'' @ session_id s @ ''$'' @ [CHR 0x0A]]))
    \<and> (CHR ''$'' \<notin> set sid \<longrightarrow> proxy_sessions st sid = Some (a, p, pre) \<longrightarrow>
            fst (read_line st (''$BASE64$'' @ sid @ ''$'' @ [CHR 0x0A])) = None \<and>
            proxy_sessions (snd (read_line st (''$BASE64$'' @ sid @ ''$'' @ [CHR 0x0A]))) sid =
              Some (a, p, pre @ [[]]))
    \<and> (proxy_sessions st sid = Some (a, p, pre @ [] # post) \<longrightarrow> [] \<notin> set pre \<longrightarrow>
            (\<exists>st' sock'. worker_loop st sid sock (ev # evs) = Inr (st', False, sock')))"
proof -
  have 1: "is_alive s \<longrightarrow>
            connect_loop s q (Data [] # reads) =
              (s\<lparr>is_alive := False\<rparr>, q @ [''$BASE64$'' @ session_id s @ ''$'' @ [CHR 0x0A]])"
    using connect_loop_eof[of s q reads] data_frame_empty[of "session_id s"]
    by (simp add: ClipsSession_close_def)
  have 2: "CHR ''$'' \<notin> set sid \<longrightarrow> proxy_sessions st sid = Some (a, p, pre) \<longrightarrow>
            fst (read_line st (''$BASE64$'' @ sid @ ''$'' @ [CHR 0x0A])) = None \<and>
            proxy_sessions (snd (read_line st (''$BASE64$'' @ sid @ ''$'' @ [CHR 0x0A]))) sid =
              Some (a, p, pre @ [[]])"
    using read_line_data_frame[of sid st a p pre "[]"] data_frame_empty[of sid] by simp
  have 3: "proxy_sessions st sid = Some (a, p, pre @ [] # post) \<longrightarrow> [] \<notin> set pre \<longrightarrow>
            (\<exists>st' sock'. worker_loop st sid sock (ev # evs) = Inr (st', False, sock'))"
    using worker_loop_close_item[of st sid a p pre post sock ev evs] by blast
  show ?thesis using 1 2 3 by blast
qed

theorem client_eof_close_signal_witness:
  "(let s = \<lparr>session_id = ''aaaaaaaa'', is_alive = True,
               handler = Some \<lparr>rfile = [], wfile = []\<rparr>, proxy_socket = Some 0\<rparr>;
        st = \<lparr>proxy_sessions = [''aaaaaaaa'' \<mapsto> (''example.com'', 80, [''GET''])],
              workers = [''aaaaaaaa''], wconn = [], proxy_stderr = []\<rparr>;
        st' = st\<lparr>proxy_sessions := [''aaaaaaaa'' \<mapsto> (''example.com'', 80, [''GET'', []])]\<rparr>
    in connect_loop s [] [Data [], Data ''late''] =
         (s\<lparr>is_alive := False\<rparr>, [''$BASE64$aaaaaaaa$'' @ [CHR 0x0A]])
     \<and> proxy_sessions (snd (read_line st (''$BASE64$aaaaaaaa$'' @ [CHR 0x0A]))) ''aaaaaaaa'' =
         Some (''example.com'', 80, [''GET'', []])
     \<and> (\<exists>st'' sock. worker_loop st' ''aaaaaaaa'' [] [None, Some (Data ''more'')] =
           Inr (st'', False, sock)))"
proof -
  define s where "s = \<lparr>session_id = ''aaaaaaaa'', is_alive = True,
               handler = Some \<lparr>rfile = [], wfile = []\<rparr>, proxy_socket = Some (0::int)\<rparr>"
  define st where "st = \<lparr>proxy_sessions = [''aaaaaaaa'' \<mapsto> (''example.com'', 80::int, [''GET''])],
              workers = [''aaaaaaaa''], wconn = [], proxy_stderr = []\<rparr>"
  define st' where "st' = st\<lparr>proxy_sessions := [''aaaaaaaa'' \<mapsto> (''example.com'', 80::int, [''GET'', []])]\<rparr>"
  have a: "connect_loop s [] [Data [], Data ''late''] =
         (s\<lparr>is_alive := False\<rparr>, [''$BASE64$aaaaaaaa$'' @ [CHR 0x0A]])"
    using client_eof_close_signal[of s "[]" "[Data ''late'']"] by (simp add: s_def)
  have b: "proxy_sessions (snd (read_line st (''$BASE64$aaaaaaaa$'' @ [CHR 0x0A]))) ''aaaaaaaa'' =
         Some (''example.com'', 80, [''GET'', []])"
    using client_eof_close_signal[of s _ _ "''aaaaaaaa''" st "''example.com''" 80 "[''GET'']"]
    by (simp add: st_def)
  have c: "\<exists>st'' sock. worker_loop st' ''aaaaaaaa'' [] [None, Some (Data ''more'')] =
           Inr (st'', False, sock)"
    using client_eof_close_signal[of s _ _ "''aaaaaaaa''" st' "''example.com''" 80 "[''GET'']" "[]" "[]" None
        "[Some (Data ''more'')]"]
    by (simp add: st'_def st_def)
  show ?thesis
    unfolding Let_def using a b c unfolding s_def st_def st'_def by simp
qed

section \<open>Requests with an unsupported address type\<close>

text \<open>
  Claim C10. A request whose method negotiation offers ``no authentication required'' and whose
  address type is neither IPv4 nor a domain name gets the ADDRESS_TYPE_NOT_SUPPORTED reply
  (after the method selection), and \<open>handle\<close> goes on with the command handling for the
  address \<open>(None, None)\<close> instead of returning: a command other than CONNECT gets a second
  reply, COMMAND_NOT_SUPPORTED; for CONNECT a session is created and its CONNECT frame, with
  \<open>None\<close> as port and as host, is put on the outbound queue.
\<close>

theorem unsupported_address_type_falls_through:
  "rfile h = [v, nm] @ methods @ [v', cmd, rsv, atyp] @ tl_bytes \<longrightarrow>
   0 \<le> signed_byte nm \<longrightarrow> length methods = nat (signed_byte nm) \<longrightarrow>
   NO_AUTHENTICATION_REQUIRED \<in> set (map signed_byte methods) \<longrightarrow>
   signed_byte atyp \<noteq> IPV4 \<longrightarrow> signed_byte atyp \<noteq> DOMAIN_NAME \<longrightarrow>
     handle h m rnd i reads =
       map_option Inr
         (command_handling
            (h\<lparr>rfile := tl_bytes,
               wfile := wfile h @ [CHR 0x05, CHR 0x00] @ response ADDRESS_TYPE_NOT_SUPPORTED\<rparr>)
            m rnd i reads (signed_byte cmd) (None, None))
   \<and> (signed_byte cmd \<noteq> CONNECT \<longrightarrow>
        handle h m rnd i reads =
          Some (Inr (h\<lparr>rfile := tl_bytes,
                       wfile := wfile h @ [CHR 0x05, CHR 0x00] @
                                response ADDRESS_TYPE_NOT_SUPPORTED @
                                response COMMAND_NOT_SUPPORTED\<rparr>, m, i)))
   \<and> (signed_byte cmd = CONNECT \<longrightarrow> create_session m rnd i = Some (s, m1, i') \<longrightarrow>
        (\<exists>h' m'. handle h m rnd i reads = Some (Inr (h', m', i'))
           \<and> wfile h' = wfile h @ [CHR 0x05, CHR 0x00] @ response ADDRESS_TYPE_NOT_SUPPORTED
           \<and> (\<exists>rest. mq m' =
                 mq m @ [''$BASE64$'' @ session_id s @ ''$$None$None'' @ [CHR 0x0A]] @ rest)))"
proof (intro impI)
  assume r: "rfile h = [v, nm] @ methods @ [v', cmd, rsv, atyp] @ tl_bytes"
    and n0: "0 \<le> signed_byte nm" and len: "length methods = nat (signed_byte nm)"
    and auth: "NO_AUTHENTICATION_REQUIRED \<in> set (map signed_byte methods)"
    and a1: "signed_byte atyp \<noteq> IPV4" and a3: "signed_byte atyp \<noteq> DOMAIN_NAME"
  let ?h5 = "h\<lparr>rfile := tl_bytes,
               wfile := wfile h @ [CHR 0x05, CHR 0x00] @ response ADDRESS_TYPE_NOT_SUPPORTED\<rparr>"
  have c5: "char_of SOCKS_VERSION = CHR 0x05" "char_of (nat NO_AUTHENTICATION_REQUIRED) = CHR 0x00"
    by (simp_all add: SOCKS_VERSION_def NO_AUTHENTICATION_REQUIRED_def char_of_eq_iff)
  have main: "handle h m rnd i reads =
       map_option Inr (command_handling ?h5 m rnd i reads (signed_byte cmd) (None, None))"
    using r n0 len auth a1 a3 c5
    by (simp add: handle_def recv_def unpack_b_def Let_def address_handling_def
        send_def send_response_def)
  have other: "handle h m rnd i reads =
          Some (Inr (h\<lparr>rfile := tl_bytes,
                       wfile := wfile h @ [CHR 0x05, CHR 0x00] @
                                response ADDRESS_TYPE_NOT_SUPPORTED @
                                response COMMAND_NOT_SUPPORTED\<rparr>, m, i))"
    if "signed_byte cmd \<noteq> CONNECT"
    using that unfolding main by (simp add: command_handling_def send_response_def send_def)
  have conn: "\<exists>h' m'. handle h m rnd i reads = Some (Inr (h', m', i'))
           \<and> wfile h' = wfile h @ [CHR 0x05, CHR 0x00] @ response ADDRESS_TYPE_NOT_SUPPORTED
           \<and> (\<exists>rest. mq m' =
                 mq m @ [''$BASE64$'' @ session_id s @ ''$$None$None'' @ [CHR 0x0A]] @ rest)"
    if c1: "signed_byte cmd = CONNECT" and c2: "create_session m rnd i = Some (s, m1, i')"
  proof -
    obtain h' m' where "command_handling ?h5 m rnd i reads CONNECT (None, None) = Some (h', m', i')"
      "wfile h' = wfile ?h5"
      "\<exists>rest. mq m' = mq m @ [connect_frame (session_id s) (None, None)] @ rest"
      using command_handling_connect[OF c2, of ?h5 reads "(None, None)"] by blast
    then show ?thesis unfolding main c1 by (simp add: connect_frame_null)
  qed
  show "handle h m rnd i reads =
       map_option Inr (command_handling ?h5 m rnd i reads (signed_byte cmd) (None, None))
   \<and> (signed_byte cmd \<noteq> CONNECT \<longrightarrow>
        handle h m rnd i reads =
          Some (Inr (h\<lparr>rfile := tl_bytes,
                       wfile := wfile h @ [CHR 0x05, CHR 0x00] @
                                response ADDRESS_TYPE_NOT_SUPPORTED @
                                response COMMAND_NOT_SUPPORTED\<rparr>, m, i)))
   \<and> (signed_byte cmd = CONNECT \<longrightarrow> create_session m rnd i = Some (s, m1, i') \<longrightarrow>
        (\<exists>h' m'. handle h m rnd i reads = Some (Inr (h', m', i'))
           \<and> wfile h' = wfile h @ [CHR 0x05, CHR 0x00] @ response ADDRESS_TYPE_NOT_SUPPORTED
           \<and> (\<exists>rest. mq m' =
                 mq m @ [''$BASE64$'' @ session_id s @ ''$$None$None'' @ [CHR 0x0A]] @ rest)))"
    using main other conn by blast
qed

theorem unsupported_address_type_falls_through_witness:
  "(let m = \<lparr>sessions = Map.empty, mq = [], stderr = []\<rparr>;
        ipv6 = replicate 18 (CHR 0x00);
        bind = \<lparr>rfile = [CHR 0x05, CHR 0x01, CHR 0x00, CHR 0x05, CHR 0x02, CHR 0x00, CHR 0x04] @ ipv6,
                wfile = []\<rparr>;
        conn = \<lparr>rfile = [CHR 0x05, CHR 0x01, CHR 0x00, CHR 0x05, CHR 0x01, CHR 0x00, CHR 0x04] @ ipv6,
                wfile = []\<rparr>
    in handle bind m (\<lambda>j. 0) 0 [] =
         Some (Inr (\<lparr>rfile = ipv6,
                      wfile = [CHR 0x05, CHR 0x00] @ response ADDRESS_TYPE_NOT_SUPPORTED @
                              response COMMAND_NOT_SUPPORTED\<rparr>, m, 0))
     \<and> (\<exists>h' m'. handle conn m (\<lambda>j. 0) 0 [] = Some (Inr (h', m', 8))
           \<and> wfile h' = [CHR 0x05, CHR 0x00] @ response ADDRESS_TYPE_NOT_SUPPORTED
           \<and> (\<exists>rest. mq m' = [''$BASE64$aaaaaaaa$$None$None'' @ [CHR 0x0A]] @ rest)))"
proof -
  define m where "m = \<lparr>sessions = Map.empty, mq = [], stderr = []\<rparr>"
  define ipv6 where "ipv6 = replicate 18 (CHR 0x00)"
  define bind where "bind = \<lparr>rfile = [CHR 0x05, CHR 0x01, CHR 0x00, CHR 0x05, CHR 0x02, CHR 0x00, CHR 0x04] @ ipv6,
                wfile = []\<rparr>"
  define conn where "conn = \<lparr>rfile = [CHR 0x05, CHR 0x01, CHR 0x00, CHR 0x05, CHR 0x01, CHR 0x00, CHR 0x04] @ ipv6,
                wfile = []\<rparr>"
  define rnd where "rnd = (\<lambda>j::nat. 0::nat)"
  have sb: "signed_byte (CHR 0x01) = 1" "signed_byte (CHR 0x00) = 0" "signed_byte (CHR 0x02) = 2"
    "signed_byte (CHR 0x04) = 4"
    by (simp_all add: signed_byte_def)
  have rid: "random_id rnd 0 = ''aaaaaaaa''"
    by (simp add: random_id_def random_choice_def rnd_def ID_SIZE_def ID_CHARSET_def upt_rec[of _ 8])
  have cs: "create_session m rnd 0 =
      Some (ClipsSession_init ''aaaaaaaa'',
            m\<lparr>sessions := [''aaaaaaaa'' \<mapsto> ClipsSession_init ''aaaaaaaa'']\<rparr>, 8)"
    unfolding create_session_def
    by (subst create_session_id.simps) (simp add: rid m_def ID_SIZE_def)
  have hb: "rfile bind = [CHR 0x05, CHR 0x01] @ [CHR 0x00] @ [CHR 0x05, CHR 0x02, CHR 0x00, CHR 0x04] @ ipv6"
    and hc: "rfile conn = [CHR 0x05, CHR 0x01] @ [CHR 0x00] @ [CHR 0x05, CHR 0x01, CHR 0x00, CHR 0x04] @ ipv6"
    by (simp_all add: bind_def conn_def)
  have h2: "0 \<le> signed_byte (CHR 0x01)" and h3: "length [CHR 0x00] = nat (signed_byte (CHR 0x01))"
    and h4: "NO_AUTHENTICATION_REQUIRED \<in> set (map signed_byte [CHR 0x00])"
    and h5: "signed_byte (CHR 0x04) \<noteq> IPV4" and h6: "signed_byte (CHR 0x04) \<noteq> DOMAIN_NAME"
    and h7: "signed_byte (CHR 0x02) \<noteq> CONNECT" and h8: "signed_byte (CHR 0x01) = CONNECT"
    by (simp_all add: sb NO_AUTHENTICATION_REQUIRED_def IPV4_def DOMAIN_NAME_def CONNECT_def)
  note tb = unsupported_address_type_falls_through[of bind _ _ _ _ _ _ _ _ m rnd 0 "[]",
      THEN mp, THEN mp, THEN mp, THEN mp, THEN mp, THEN mp, OF hb h2 h3 h4 h5 h6]
  note tc = unsupported_address_type_falls_through[of conn _ _ _ _ _ _ _ _ m rnd 0 "[]"
      "ClipsSession_init ''aaaaaaaa''"
      "m\<lparr>sessions := [''aaaaaaaa'' \<mapsto> ClipsSession_init ''aaaaaaaa'']\<rparr>" 8,
      THEN mp, THEN mp, THEN mp, THEN mp, THEN mp, THEN mp, OF hc h2 h3 h4 h5 h6]
  have a: "handle bind m rnd 0 [] =
         Some (Inr (\<lparr>rfile = ipv6,
                      wfile = [CHR 0x05, CHR 0x00] @ response ADDRESS_TYPE_NOT_SUPPORTED @
                              response COMMAND_NOT_SUPPORTED\<rparr>, m, 0))"
    using tb[THEN conjunct2, THEN conjunct1, THEN mp, OF h7] by (simp add: bind_def)
  have b: "\<exists>h' m'. handle conn m rnd 0 [] = Some (Inr (h', m', 8))
           \<and> wfile h' = [CHR 0x05, CHR 0x00] @ response ADDRESS_TYPE_NOT_SUPPORTED
           \<and> (\<exists>rest. mq m' = [''$BASE64$aaaaaaaa$$None$None'' @ [CHR 0x0A]] @ rest)"
    using tc[THEN conjunct2, THEN conjunct2, THEN mp, THEN mp, OF h8 cs]
    by (simp add: conn_def ClipsSession_init_def m_def)
  show ?thesis
    unfolding Let_def using a b unfolding m_def ipv6_def bind_def conn_def rnd_def by simp
qed

end
